theory Spec2Isabelle
  imports Main "HOL-Library.Word" "HOL-Library.Sublist"
begin

section \<open>Python values used by agent.py\<close>

text \<open>
  A Python \<open>str\<close> is a sequence of Unicode code points: slicing and \<open>len\<close> count code
  points, so a string is a list of natural numbers. \<open>bytes\<close> are lists of 8-bit words.
\<close>

type_synonym ustr = "nat list"

type_synonym byte = "8 word"

definition str :: "string \<Rightarrow> ustr" where
  \<comment> \<open>an ASCII literal of the source\<close>
  "str s = map of_char s"

definition isspace :: "nat \<Rightarrow> bool" where
  \<comment> \<open>the code points that \<open>str.strip()\<close> removes (Python's Unicode whitespace)\<close>
  "isspace c =
     ((0x09 \<le> c \<and> c \<le> 0x0D) \<or> (0x1C \<le> c \<and> c \<le> 0x20) \<or> c = 0x85 \<or> c = 0xA0 \<or>
      c = 0x1680 \<or> (0x2000 \<le> c \<and> c \<le> 0x200A) \<or> c = 0x2028 \<or> c = 0x2029 \<or>
      c = 0x202F \<or> c = 0x205F \<or> c = 0x3000)"

definition strip :: "ustr \<Rightarrow> ustr" where
  \<comment> \<open>\<open>s.strip()\<close>: leading and trailing whitespace removed\<close>
  "strip s = rev (dropWhile isspace (rev (dropWhile isspace s)))"

definition endswith :: "ustr \<Rightarrow> ustr \<Rightarrow> bool" where
  "endswith s t = (length t \<le> length s \<and> drop (length s - length t) s = t)"

fun join :: "ustr \<Rightarrow> ustr list \<Rightarrow> ustr" where
  \<comment> \<open>\<open>sep.join(xs)\<close>\<close>
  "join sep [] = []"
| "join sep [x] = x"
| "join sep (x # y # ys) = x @ sep @ join sep (y # ys)"

definition ascii_lower :: "ustr \<Rightarrow> ustr" where
  \<comment> \<open>\<open>str.lower()\<close> as it acts on ASCII text; used where a concrete case mapping is needed\<close>
  "ascii_lower s = map (\<lambda>c. if 0x41 \<le> c \<and> c \<le> 0x5A then c + 0x20 else c) s"

section \<open>The hosted model\<close>

text \<open>
  \<open>model.generate_content(payload)\<close> receives either one prompt string or a list of
  \<open>{"role": ..., "parts": [...]}\<close> entries. The call may raise; so may reading
  \<open>response.text\<close>. Every call made is recorded, in order, beside the result. A run of
  the script calls the model at most once, so what the model answers is a function of the
  payload it is given.
\<close>

datatype error = GatewayError ustr | PdfReadError ustr | UnicodeDecodeError

record content =
  entry_role :: ustr
  entry_parts :: "ustr list"

datatype payload = Prompt ustr | Contents "content list"

datatype response = Response (response_text: "error + ustr")

type_synonym model = "payload \<Rightarrow> error + response"

type_synonym reply = "(error + ustr) \<times> payload list"

definition generate_text :: "model \<Rightarrow> payload \<Rightarrow> reply" where
  \<comment> \<open>\<open>response = model.generate_content(p); return response.text.strip()\<close>\<close>
  "generate_text model p =
     (case model p of
        Inl e \<Rightarrow> (Inl e, [p])
      | Inr response \<Rightarrow>
          (case response_text response of
             Inl e \<Rightarrow> (Inl e, [p])
           | Inr t \<Rightarrow> (Inr (strip t), [p])))"

definition init_gemini :: "(ustr \<Rightarrow> ustr \<Rightarrow> model) \<Rightarrow> ustr \<Rightarrow> ustr \<Rightarrow> model" where
  \<comment> \<open>\<open>genai.configure(api_key=api_key); genai.GenerativeModel(model_name)\<close>:
      the library \<open>genai\<close> is a parameter\<close>
  "init_gemini genai api_key model_name = genai api_key model_name"

definition default_model_name :: ustr where
  "default_model_name = str ''models/gemini-flash-latest''"

section \<open>Conversation state\<close>

record turn =
  user :: ustr
  assistant :: ustr

record agent_run =
  agentic_explanation :: ustr

record session_state =
  messages :: "turn list"
  agent_runs :: "agent_run list"

section \<open>File and document handling\<close>

subsection \<open>bytes.decode("utf-8", errors=...)\<close>

text \<open>
  Python's UTF-8 decoder reads one code point at a time. Where the bytes at the current
  position do not form a valid sequence it reports the undecodable span (the lead byte
  and the continuation bytes accepted so far; everything left when the data ends inside
  a sequence) to the handler named by \<open>errors\<close>: \<open>strict\<close> raises, \<open>ignore\<close> resumes
  after the span and emits nothing, \<open>replace\<close> emits U+FFFD and resumes after the span.
\<close>

datatype errors = Strict | Ignore | Replace

datatype utf8_step = Decoded nat nat | Undecodable nat
  \<comment> \<open>the code point read, or an undecodable span; the number counts the bytes consumed
      after the lead byte\<close>

definition is_continuation :: "byte \<Rightarrow> bool" where
  "is_continuation b = (0x80 \<le> b \<and> b \<le> 0xBF)"

definition utf8_next :: "byte \<Rightarrow> byte list \<Rightarrow> utf8_step" where
  "utf8_next b0 rest =
     (if b0 < 0x80 then Decoded (unat b0) 0
      else if b0 < 0xC2 then Undecodable 0
      else if b0 < 0xE0 then
        (case rest of
           [] \<Rightarrow> Undecodable 0
         | b1 # _ \<Rightarrow>
             if is_continuation b1
             then Decoded ((unat b0 - 0xC0) * 64 + (unat b1 - 0x80)) 1
             else Undecodable 0)
      else if b0 < 0xF0 then
        (case rest of
           [] \<Rightarrow> Undecodable 0
         | b1 # rest1 \<Rightarrow>
             if \<not> is_continuation b1 \<or> (if b1 < 0xA0 then b0 = 0xE0 else b0 = 0xED)
             then Undecodable 0
             else
               (case rest1 of
                  [] \<Rightarrow> Undecodable 1
                | b2 # _ \<Rightarrow>
                    if is_continuation b2
                    then Decoded ((unat b0 - 0xE0) * 4096 + (unat b1 - 0x80) * 64
                                    + (unat b2 - 0x80)) 2
                    else Undecodable 1))
      else if b0 < 0xF5 then
        (case rest of
           [] \<Rightarrow> Undecodable 0
         | b1 # rest1 \<Rightarrow>
             if \<not> is_continuation b1 \<or> (if b1 < 0x90 then b0 = 0xF0 else b0 = 0xF4)
             then Undecodable 0
             else
               (case rest1 of
                  [] \<Rightarrow> Undecodable 1
                | b2 # rest2 \<Rightarrow>
                    if \<not> is_continuation b2 then Undecodable 1
                    else
                      (case rest2 of
                         [] \<Rightarrow> Undecodable 2
                       | b3 # _ \<Rightarrow>
                           if is_continuation b3
                           then Decoded ((unat b0 - 0xF0) * 262144 + (unat b1 - 0x80) * 4096
                                           + (unat b2 - 0x80) * 64 + (unat b3 - 0x80)) 3
                           else Undecodable 2)))
      else Undecodable 0)"

fun decode_utf8 :: "errors \<Rightarrow> byte list \<Rightarrow> error + ustr" where
  "decode_utf8 h [] = Inr []"
| "decode_utf8 h (b0 # rest) =
     (case utf8_next b0 rest of
        Decoded c k \<Rightarrow>
          (case decode_utf8 h (drop k rest) of Inl e \<Rightarrow> Inl e | Inr s \<Rightarrow> Inr (c # s))
      | Undecodable k \<Rightarrow>
          (case h of
             Strict \<Rightarrow> Inl UnicodeDecodeError
           | Ignore \<Rightarrow> decode_utf8 h (drop k rest)
           | Replace \<Rightarrow>
               (case decode_utf8 h (drop k rest) of
                  Inl e \<Rightarrow> Inl e
                | Inr s \<Rightarrow> Inr (0xFFFD # s))))"

subsection \<open>UTF-8 as the Unicode standard defines it\<close>

text \<open>
  The reference the decoder is compared with; it follows the standard and the words
  \<open>decodes as UTF-8, dropping undecodable bytes\<close>, not the source. A scalar value is a code
  point up to U+10FFFF outside the surrogate range, and \<open>utf8_encoding\<close> is its one to four
  bytes. Reading left to right, where the remaining bytes begin with the encoding of a
  scalar value that value is read; where they begin with no such encoding, one byte is
  dropped.
\<close>

definition is_scalar_value :: "nat \<Rightarrow> bool" where
  "is_scalar_value c = (c < 0x110000 \<and> \<not> (0xD800 \<le> c \<and> c \<le> 0xDFFF))"

definition utf8_encoding :: "nat \<Rightarrow> byte list" where
  "utf8_encoding c =
     (if c < 0x80 then [of_nat c]
      else if c < 0x800 then [of_nat (0xC0 + c div 64), of_nat (0x80 + c mod 64)]
      else if c < 0x10000 then
        [of_nat (0xE0 + c div 4096), of_nat (0x80 + c div 64 mod 64), of_nat (0x80 + c mod 64)]
      else
        [of_nat (0xF0 + c div 262144), of_nat (0x80 + c div 4096 mod 64),
         of_nat (0x80 + c div 64 mod 64), of_nat (0x80 + c mod 64)])"

inductive dropping_undecodable :: "byte list \<Rightarrow> ustr \<Rightarrow> bool" where
  finished: "dropping_undecodable [] []"
| decoded: "is_scalar_value c \<Longrightarrow> dropping_undecodable bs t \<Longrightarrow> dropping_undecodable (utf8_encoding c @ bs) (c # t)"
| dropped: "\<forall>c. is_scalar_value c \<longrightarrow> \<not> prefix (utf8_encoding c) (b # bs) \<Longrightarrow> dropping_undecodable bs t \<Longrightarrow>
            dropping_undecodable (b # bs) t"

subsection \<open>Uploaded files\<close>

text \<open>
  An uploaded file has a name and the bytes its \<open>read()\<close> yields. PyPDF2 is outside the
  repository: it may be missing (the import fails), \<open>PdfReader(file)\<close> may raise on the
  bytes it is given, and \<open>page.extract_text()\<close> yields a string or nothing, or raises.
  \<open>str.lower\<close> rests on the Unicode case-mapping tables, which are a parameter too.
\<close>

record uploaded_file =
  name :: ustr
  data :: "byte list"

datatype page = Page (extract_text: "error + ustr option")

type_synonym pdf_library = "(byte list \<Rightarrow> error + page list) option"

definition read_txt_file :: "uploaded_file \<Rightarrow> error + ustr" where
  "read_txt_file file = decode_utf8 Ignore (data file)"

fun read_pages :: "page list \<Rightarrow> ustr list \<Rightarrow> error + ustr list" where
  \<comment> \<open>the loop \<open>for page in reader.pages: text.append(page.extract_text() or "")\<close>\<close>
  "read_pages [] text_acc = Inr text_acc"
| "read_pages (p # ps) text_acc =
     (case extract_text p of
        Inl e \<Rightarrow> Inl e
      | Inr None \<Rightarrow> read_pages ps (text_acc @ [[]])
      | Inr (Some t) \<Rightarrow> read_pages ps (text_acc @ [t]))"

definition read_pdf_file :: "pdf_library \<Rightarrow> uploaded_file \<Rightarrow> error + ustr" where
  "read_pdf_file PyPDF2 file =
     (case PyPDF2 of
        None \<Rightarrow> Inr (str ''PyPDF2 is not installed. Please install it with `pip install PyPDF2`.'')
      | Some PdfReader \<Rightarrow>
          (case PdfReader (data file) of
             Inl e \<Rightarrow> Inl e
           | Inr pages \<Rightarrow>
               (case read_pages pages [] of
                  Inl e \<Rightarrow> Inl e
                | Inr text_acc \<Rightarrow> Inr (join (str ''\<newline>'') text_acc))))"

fun collect_text ::
  "(ustr \<Rightarrow> ustr) \<Rightarrow> pdf_library \<Rightarrow> uploaded_file list \<Rightarrow> ustr list \<Rightarrow> error + ustr list" where
  \<comment> \<open>the loop \<open>for f in files\<close> over the accumulator \<open>full_text\<close>\<close>
  "collect_text lower PyPDF2 [] full_text = Inr full_text"
| "collect_text lower PyPDF2 (f # fs) full_text =
     (if endswith (lower (name f)) (str ''.txt'') then
        (case read_txt_file f of
           Inl e \<Rightarrow> Inl e
         | Inr t \<Rightarrow> collect_text lower PyPDF2 fs (full_text @ [t]))
      else if endswith (lower (name f)) (str ''.pdf'') then
        (case read_pdf_file PyPDF2 f of
           Inl e \<Rightarrow> Inl e
         | Inr t \<Rightarrow> collect_text lower PyPDF2 fs (full_text @ [t]))
      else
        collect_text lower PyPDF2 fs (full_text @ [str ''Unsupported file type: '' @ name f]))"

definition get_uploaded_text ::
  "(ustr \<Rightarrow> ustr) \<Rightarrow> pdf_library \<Rightarrow> uploaded_file list \<Rightarrow> error + ustr" where
  "get_uploaded_text lower PyPDF2 files =
     (if files = [] then Inr []
      else
        (case collect_text lower PyPDF2 files [] of
           Inl e \<Rightarrow> Inl e
         | Inr full_text \<Rightarrow> Inr (join (str ''\<newline>'' @ str ''\<newline>'') full_text)))"

section \<open>Agent tools\<close>

subsection \<open>tool_general_chat\<close>

definition system_prompt :: "ustr \<Rightarrow> ustr \<Rightarrow> ustr" where
  "system_prompt role language =
     str ''\<newline>'' @
     str ''You are GenieTalk, an AI agentic assistant.\<newline>'' @
     str ''\<newline>'' @
     str ''Role: '' @
     role @
     str ''\<newline>'' @
     str ''\<newline>'' @
     str ''You must:\<newline>'' @
     str ''- Be helpful and concise.\<newline>'' @
     str ''- Adapt your tone to the role (e.g., more emotional for Emotional Support, technical for Coding Help).\<newline>'' @
     str ''- Always respond in this language: '' @
     language @
     str ''.\<newline>''"

fun history_contents :: "turn list \<Rightarrow> content list \<Rightarrow> content list" where
  \<comment> \<open>the loop \<open>for msg in history\<close>: two appends per message\<close>
  "history_contents [] contents = contents"
| "history_contents (msg # history) contents =
     history_contents history
       ((contents @ [\<lparr>entry_role = str ''user'', entry_parts = [user msg]\<rparr>])
          @ [\<lparr>entry_role = str ''model'', entry_parts = [assistant msg]\<rparr>])"

definition general_chat_contents :: "ustr \<Rightarrow> ustr \<Rightarrow> ustr \<Rightarrow> turn list \<Rightarrow> content list" where
  "general_chat_contents user_input language role history =
     history_contents history [\<lparr>entry_role = str ''user'', entry_parts = [system_prompt role language]\<rparr>]
       @ [\<lparr>entry_role = str ''user'', entry_parts = [user_input]\<rparr>]"

definition tool_general_chat :: "model \<Rightarrow> ustr \<Rightarrow> ustr \<Rightarrow> ustr \<Rightarrow> turn list \<Rightarrow> reply" where
  "tool_general_chat model user_input language role history =
     generate_text model (Contents (general_chat_contents user_input language role history))"

subsection \<open>tool_document_qa\<close>

definition document_qa_prompt :: "ustr \<Rightarrow> ustr \<Rightarrow> ustr \<Rightarrow> ustr" where
  "document_qa_prompt question doc_text language =
     str ''\<newline>'' @
     str ''You are a document QA assistant.\<newline>'' @
     str ''\<newline>'' @
     str ''You receive:\<newline>'' @
     str ''- A question from the user\<newline>'' @
     str ''- Full extracted text from one or more documents\<newline>'' @
     str ''\<newline>'' @
     str ''1. First, briefly state what you understood about the question.\<newline>'' @
     str ''2. Then answer using ONLY the document text when possible.\<newline>'' @
     str ''3. If something is not in the document, clearly say it.\<newline>'' @
     str ''\<newline>'' @
     str ''Answer in this language: '' @
     language @
     str ''.\<newline>'' @
     str ''\<newline>'' @
     str ''User question:\<newline>'' @
     question @
     str ''\<newline>'' @
     str ''\<newline>'' @
     str ''Document text:\<newline>'' @
     str ''\"\"\"'' @
     take 25000 doc_text @
     str ''\"\"\"  # (truncated if very long)\<newline>''"

definition no_document_message :: ustr where
  "no_document_message =
     str ''(I could not find any document text. Please upload a PDF or TXT first.)''"

definition tool_document_qa :: "model \<Rightarrow> ustr \<Rightarrow> ustr \<Rightarrow> ustr \<Rightarrow> reply" where
  "tool_document_qa model question doc_text language =
     (if strip doc_text = [] then (Inr no_document_message, [])
      else generate_text model (Prompt (document_qa_prompt question doc_text language)))"

subsection \<open>tool_translate\<close>

definition translate_prompt :: "ustr \<Rightarrow> ustr \<Rightarrow> ustr" where
  "translate_prompt text target_language =
     str ''\<newline>'' @
     str ''You are a professional translator.\<newline>'' @
     str ''\<newline>'' @
     str ''Translate the following text into: '' @
     target_language @
     str ''.\<newline>'' @
     str ''\<newline>'' @
     str ''Keep the original meaning, tone, and style.\<newline>'' @
     str ''\<newline>'' @
     str ''Text:\<newline>'' @
     str ''\"\"\"'' @
     text @
     str ''\"\"\"\<newline>''"

definition tool_translate :: "model \<Rightarrow> ustr \<Rightarrow> ustr \<Rightarrow> reply" where
  "tool_translate model text target_language =
     generate_text model (Prompt (translate_prompt text target_language))"

subsection \<open>tool_resume_review\<close>

definition resume_review_prompt :: "ustr \<Rightarrow> ustr \<Rightarrow> ustr" where
  "resume_review_prompt resume_text language =
     str ''\<newline>'' @
     str ''You are a resume and career advisor.\<newline>'' @
     str ''\<newline>'' @
     str ''You receive a resume text and must:\<newline>'' @
     str ''1. Summarize the candidate's profile.\<newline>'' @
     str ''2. Point out 5'' @
     [8211] @
     str ''10 very specific improvements (content + formatting).\<newline>'' @
     str ''3. Suggest 3 tailored role titles the candidate can target.\<newline>'' @
     str ''4. Suggest 3'' @
     [8211] @
     str ''5 strong bullet points they can add.\<newline>'' @
     str ''\<newline>'' @
     str ''Answer in this language: '' @
     language @
     str ''.\<newline>'' @
     str ''\<newline>'' @
     str ''Resume text:\<newline>'' @
     str ''\"\"\"'' @
     take 20000 resume_text @
     str ''\"\"\"\<newline>''"

definition no_resume_message :: ustr where
  "no_resume_message =
     str ''Please upload your resume as PDF/TXT or paste it so I can review it.''"

definition tool_resume_review :: "model \<Rightarrow> ustr \<Rightarrow> ustr \<Rightarrow> reply" where
  "tool_resume_review model resume_text language =
     (if strip resume_text = [] then (Inr no_resume_message, [])
      else generate_text model (Prompt (resume_review_prompt resume_text language)))"

subsection \<open>tool_coding_help\<close>

definition coding_help_prompt :: "ustr \<Rightarrow> ustr \<Rightarrow> ustr" where
  "coding_help_prompt question language =
     str ''\<newline>'' @
     str ''You are a senior software engineer and coding mentor.\<newline>'' @
     str ''\<newline>'' @
     str ''User question:\<newline>'' @
     question @
     str ''\<newline>'' @
     str ''\<newline>'' @
     str ''You must:\<newline>'' @
     str ''- Explain step by step, but not too long.\<newline>'' @
     str ''- Show minimal but correct code examples.\<newline>'' @
     str ''- Add short comments.\<newline>'' @
     str ''- Answer in language: '' @
     language @
     str ''.\<newline>''"

definition tool_coding_help :: "model \<Rightarrow> ustr \<Rightarrow> ustr \<Rightarrow> reply" where
  "tool_coding_help model question language =
     generate_text model (Prompt (coding_help_prompt question language))"

subsection \<open>tool_emotional_support\<close>

definition emotional_support_prompt :: "ustr \<Rightarrow> ustr \<Rightarrow> ustr" where
  "emotional_support_prompt message language =
     str ''\<newline>'' @
     str ''You are a supportive, empathetic friend.\<newline>'' @
     str ''\<newline>'' @
     str ''User message:\<newline>'' @
     message @
     str ''\<newline>'' @
     str ''\<newline>'' @
     str ''You must:\<newline>'' @
     str ''- Validate their feelings.\<newline>'' @
     str ''- Avoid giving medical or clinical diagnosis.\<newline>'' @
     str ''- Offer simple, kind suggestions and coping strategies.\<newline>'' @
     str ''- Encourage them to reach out to trusted people or professionals if needed.\<newline>'' @
     str ''- Answer in language: '' @
     language @
     str ''.\<newline>''"

definition tool_emotional_support :: "model \<Rightarrow> ustr \<Rightarrow> ustr \<Rightarrow> reply" where
  "tool_emotional_support model message language =
     generate_text model (Prompt (emotional_support_prompt message language))"

section \<open>Agentic mode: plan and act\<close>

definition available_tools_description :: ustr where
  "available_tools_description =
     str ''\<newline>'' @
     str ''You have these internal skills/tools:\<newline>'' @
     str ''\<newline>'' @
     str ''1. general_chat: For broad reasoning, explanation, brainstorming.\<newline>'' @
     str ''2. coding_help: For code, debugging, writing functions, etc.\<newline>'' @
     str ''3. resume_review: For CV/resume critique and job guidance.\<newline>'' @
     str ''4. emotional_support: For empathy and motivation (not medical).\<newline>'' @
     str ''5. document_qa: For answering questions about uploaded PDFs/TXTs.\<newline>'' @
     str ''6. translate: For translating text into user's target language.\<newline>'' @
     str ''\<newline>'' @
     str ''You cannot actually call external APIs here; you must \"simulate\" tool use by clearly reasoning.\<newline>''"

fun history_lines :: "turn list \<Rightarrow> ustr \<Rightarrow> ustr" where
  \<comment> \<open>the loop \<open>for turn in chat_history[-6:]\<close>, \<open>history_text += ...\<close>\<close>
  "history_lines [] history_text = history_text"
| "history_lines (t # ts) history_text =
     history_lines ts
       (history_text @
          (str ''User: '' @
           user t @
           str ''\<newline>'' @
           str ''Assistant: '' @
           assistant t @
           str ''\<newline>''))"

definition history_text :: "turn list \<Rightarrow> ustr" where
  \<comment> \<open>\<open>chat_history[-6:]\<close> is the whole list when it has fewer than six entries\<close>
  "history_text chat_history =
     (if chat_history \<noteq> [] then
        history_lines (drop (length chat_history - 6) chat_history)
          (str ''\<newline>'' @
           str ''Previous conversation:\<newline>'')
      else [])"

definition doc_hint :: "ustr \<Rightarrow> ustr" where
  "doc_hint doc_text =
     (if strip doc_text \<noteq> [] then
        str ''\<newline>'' @
        str ''\<newline>'' @
        str ''The user also provided document text. You can treat it as context when needed:\<newline>'' @
        str ''\"\"\"'' @
        take 8000 doc_text @
        str ''\"\"\"''
      else [])"

definition agentic_prompt :: "ustr \<Rightarrow> ustr \<Rightarrow> ustr \<Rightarrow> ustr \<Rightarrow> turn list \<Rightarrow> ustr" where
  "agentic_prompt goal role language doc_text chat_history =
     str ''\<newline>'' @
     str ''You are GenieTalk, an AGENTIC AI assistant.\<newline>'' @
     str ''\<newline>'' @
     str ''User goal:\<newline>'' @
     str ''\"\"\"'' @
     goal @
     str ''\"\"\"\<newline>'' @
     str ''\<newline>'' @
     str ''Role: '' @
     role @
     str ''\<newline>'' @
     str ''Target answer language: '' @
     language @
     str ''\<newline>'' @
     str ''\<newline>'' @
     available_tools_description @
     str ''\<newline>'' @
     str ''\<newline>'' @
     str ''Your job:\<newline>'' @
     str ''1. Briefly restate the goal.\<newline>'' @
     str ''2. Create a numbered plan (3'' @
     [8211] @
     str ''6 steps).\<newline>'' @
     str ''3. For each step, say which tool/skill you are conceptually using (from the list).\<newline>'' @
     str ''4. Then actually do the reasoning/work for those steps.\<newline>'' @
     str ''5. Finally, give a clean FINAL ANSWER section that the user can read directly.\<newline>'' @
     str ''\<newline>'' @
     str ''Use clear headings:\<newline>'' @
     str ''- Goal\<newline>'' @
     str ''- Plan\<newline>'' @
     str ''- Step-by-step Thinking\<newline>'' @
     str ''- Final Answer\<newline>'' @
     str ''\<newline>'' @
     str ''Be practical and focused. If documents are relevant, you may use them conceptually.\<newline>'' @
     str ''\<newline>'' @
     history_text chat_history @
     str ''\<newline>'' @
     doc_hint doc_text @
     str ''\<newline>''"

definition agentic_plan_and_execute ::
  "model \<Rightarrow> ustr \<Rightarrow> ustr \<Rightarrow> ustr \<Rightarrow> ustr \<Rightarrow> turn list \<Rightarrow> (error + agent_run) \<times> payload list" where
  "agentic_plan_and_execute model goal role language doc_text chat_history =
     (case generate_text model (Prompt (agentic_prompt goal role language doc_text chat_history)) of
        (Inl e, sent) \<Rightarrow> (Inl e, sent)
      | (Inr t, sent) \<Rightarrow> (Inr \<lparr>agentic_explanation = t\<rparr>, sent))"

section \<open>The script's handling of one user input\<close>

text \<open>
  One run of the script from \<open>user_input = st.chat_input(...)\<close> to its end. The widget
  values (\<open>api_key\<close>, \<open>main_mode\<close>, \<open>role\<close>, \<open>reply_language\<close>), the extracted
  \<open>doc_text_context\<close> and \<open>st.session_state\<close> are arguments; \<open>st.chat_input\<close> yields
  \<open>None\<close> when nothing was submitted. A run gives the session state it leaves, what it
  showed, the payloads it sent to the model, and how it ended: an uncaught exception ends
  the run where it is raised.
\<close>

datatype ui = Warning ustr | ChatMessage ustr ustr

datatype outcome = Finished | Stopped | Raised error

record run =
  session :: session_state
  shown :: "ui list"
  calls :: "payload list"
  outcome :: outcome

definition chat_reply :: "model \<Rightarrow> ustr \<Rightarrow> ustr \<Rightarrow> ustr \<Rightarrow> ustr \<Rightarrow> turn list \<Rightarrow> reply" where
  \<comment> \<open>the \<open>if role == ... elif ... else\<close> chain of Chat mode\<close>
  "chat_reply model role user_input reply_language doc_text_context history =
     (if role = str ''General Assistant'' then
        tool_general_chat model user_input reply_language role history
      else if role = str ''Coding Help'' then
        tool_coding_help model user_input reply_language
      else if role = str ''Resume Review'' then
        (let resume_text = (if doc_text_context \<noteq> [] then doc_text_context else user_input)
         in tool_resume_review model resume_text reply_language)
      else if role = str ''Emotional Support'' then
        tool_emotional_support model user_input reply_language
      else if role = str ''Document QA'' then
        tool_document_qa model user_input doc_text_context reply_language
      else if role = str ''Translator'' then
        tool_translate model user_input reply_language
      else
        tool_general_chat model user_input reply_language role history)"

definition missing_key_warning :: ustr where
  "missing_key_warning = str ''Please enter your Gemini API key in the sidebar first.''"

definition handle_chat :: "model \<Rightarrow> ustr \<Rightarrow> ustr \<Rightarrow> ustr \<Rightarrow> ustr \<Rightarrow> session_state \<Rightarrow> run" where
  "handle_chat model role reply_language doc_text_context user_input st =
     (case chat_reply model role user_input reply_language doc_text_context (messages st) of
        (Inl e, sent) \<Rightarrow>
          \<lparr>session = st, shown = [ChatMessage (str ''user'') user_input],
           calls = sent, outcome = Raised e\<rparr>
      | (Inr assistant_reply, sent) \<Rightarrow>
          \<lparr>session = st\<lparr>messages := messages st @ [\<lparr>user = user_input, assistant = assistant_reply\<rparr>]\<rparr>,
           shown = [ChatMessage (str ''user'') user_input,
                    ChatMessage (str ''assistant'') assistant_reply],
           calls = sent, outcome = Finished\<rparr>)"

definition handle_agentic :: "model \<Rightarrow> ustr \<Rightarrow> ustr \<Rightarrow> ustr \<Rightarrow> ustr \<Rightarrow> session_state \<Rightarrow> run" where
  "handle_agentic model role reply_language doc_text_context user_input st =
     (case agentic_plan_and_execute model user_input role reply_language doc_text_context (messages st) of
        (Inl e, sent) \<Rightarrow>
          \<lparr>session = st, shown = [ChatMessage (str ''user'') (str ''**Goal / Task:** '' @ user_input)],
           calls = sent, outcome = Raised e\<rparr>
      | (Inr agent_run, sent) \<Rightarrow>
          (let agent_text = agentic_explanation agent_run in
           \<lparr>session = st\<lparr>messages := messages st @ [\<lparr>user = user_input, assistant = agent_text\<rparr>],
                         agent_runs := agent_runs st @ [agent_run]\<rparr>,
            shown = [ChatMessage (str ''user'') (str ''**Goal / Task:** '' @ user_input),
                     ChatMessage (str ''assistant'') agent_text],
            calls = sent, outcome = Finished\<rparr>))"

definition handle_input ::
  "(ustr \<Rightarrow> ustr \<Rightarrow> model) \<Rightarrow> ustr \<Rightarrow> ustr \<Rightarrow> ustr \<Rightarrow> ustr \<Rightarrow> ustr \<Rightarrow> ustr option \<Rightarrow>
     session_state \<Rightarrow> run" where
  \<comment> \<open>\<open>if user_input and not api_key\<close>, then \<open>if user_input and api_key\<close>: \<open>None\<close> and the
      empty string are both false\<close>
  "handle_input genai api_key main_mode role reply_language doc_text_context user_input st =
     (case user_input of
        None \<Rightarrow> \<lparr>session = st, shown = [], calls = [], outcome = Finished\<rparr>
      | Some text_in \<Rightarrow>
          if text_in = [] then \<lparr>session = st, shown = [], calls = [], outcome = Finished\<rparr>
          else if api_key = [] then
            \<lparr>session = st, shown = [Warning missing_key_warning], calls = [], outcome = Stopped\<rparr>
          else
            (let model = init_gemini genai api_key default_model_name in
             if main_mode = str ''Chat'' then
               handle_chat model role reply_language doc_text_context text_in st
             else
               handle_agentic model role reply_language doc_text_context text_in st))"

section \<open>Properties of the Python string operations\<close>

lemma strip_empty_iff: "strip s = [] \<longleftrightarrow> (\<forall>c\<in>set s. isspace c)"
proof
  assume "strip s = []"
  then have a: "\<forall>c\<in>set (dropWhile isspace s). isspace c"
    by (simp add: strip_def dropWhile_eq_Nil_conv)
  have "dropWhile isspace s = []"
  proof (rule ccontr)
    assume n: "dropWhile isspace s \<noteq> []"
    then have "\<not> isspace (hd (dropWhile isspace s))" by (rule hd_dropWhile)
    moreover have "hd (dropWhile isspace s) \<in> set (dropWhile isspace s)" using n by simp
    ultimately show False using a by blast
  qed
  then show "\<forall>c\<in>set s. isspace c" by (simp add: dropWhile_eq_Nil_conv)
next
  assume "\<forall>c\<in>set s. isspace c"
  then have d: "dropWhile isspace s = []" by (simp add: dropWhile_eq_Nil_conv)
  show "strip s = []" unfolding strip_def d by simp
qed

lemma generate_text_sent: "snd (generate_text model p) = [p]"
  by (simp add: generate_text_def split: sum.splits)

lemma history_contents_eq:
  "history_contents history contents =
     contents @ concat (map (\<lambda>msg. [\<lparr>entry_role = str ''user'', entry_parts = [user msg]\<rparr>,
                                      \<lparr>entry_role = str ''model'', entry_parts = [assistant msg]\<rparr>]) history)"
  by (induction history arbitrary: contents) simp_all

lemma history_lines_eq:
  "history_lines ts acc =
     acc @ concat (map (\<lambda>t. str ''User: '' @ user t @ str ''\<newline>'' @
                              str ''Assistant: '' @ assistant t @ str ''\<newline>'') ts)"
  by (induction ts arbitrary: acc) simp_all

section \<open>Properties of the UTF-8 decoder\<close>

lemma utf8_next_Decoded:
  assumes "utf8_next b0 rest = Decoded c k"
  shows "k \<le> length rest \<and> utf8_next b0 (take k rest @ ys) = Decoded c k"
  using assms unfolding utf8_next_def
  by (auto split: if_splits list.splits)

lemma decode_ignore_total: "\<exists>t. decode_utf8 Ignore bs = Inr t"
proof (induction bs rule: length_induct)
  case (1 bs)
  show ?case
  proof (cases bs)
    case Nil
    then show ?thesis by simp
  next
    case (Cons b0 rest)
    show ?thesis
    proof (cases "utf8_next b0 rest")
      case (Decoded c k)
      have "length (drop k rest) < length bs" using Cons by simp
      then obtain t where "decode_utf8 Ignore (drop k rest) = Inr t" using 1 by blast
      then show ?thesis using Cons Decoded by simp
    next
      case (Undecodable k)
      have "length (drop k rest) < length bs" using Cons by simp
      then obtain t where "decode_utf8 Ignore (drop k rest) = Inr t" using 1 by blast
      then show ?thesis using Cons Undecodable by simp
    qed
  qed
qed

lemma decode_strict_ignore: "decode_utf8 Strict bs = Inr s \<Longrightarrow> decode_utf8 Ignore bs = Inr s"
proof (induction bs arbitrary: s rule: length_induct)
  case (1 bs)
  show ?case
  proof (cases bs)
    case Nil
    then show ?thesis using 1 by simp
  next
    case (Cons b0 rest)
    show ?thesis
    proof (cases "utf8_next b0 rest")
      case (Decoded c k)
      have l: "length (drop k rest) < length bs" using Cons by simp
      from "1.prems" Cons Decoded obtain s' where
        s': "decode_utf8 Strict (drop k rest) = Inr s'" "s = c # s'"
        by (auto split: sum.splits)
      then have "decode_utf8 Ignore (drop k rest) = Inr s'" using 1 l by blast
      then show ?thesis using Cons Decoded s' by simp
    next
      case (Undecodable k)
      then show ?thesis using "1.prems" Cons by simp
    qed
  qed
qed

lemma decode_ignore_kept:
  "\<exists>kept. subseq kept bs \<and> decode_utf8 Strict kept = decode_utf8 Ignore bs"
proof (induction bs rule: length_induct)
  case (1 bs)
  show ?case
  proof (cases bs)
    case Nil
    have "subseq [] bs \<and> decode_utf8 Strict [] = decode_utf8 Ignore bs" using Nil by simp
    then show ?thesis by blast
  next
    case (Cons b0 rest)
    have l: "length (drop k rest) < length bs" for k using Cons by simp
    show ?thesis
    proof (cases "utf8_next b0 rest")
      case (Decoded c k)
      from 1 l obtain kept where
        kept: "subseq kept (drop k rest)" "decode_utf8 Strict kept = decode_utf8 Ignore (drop k rest)"
        by blast
      let ?K = "b0 # take k rest @ kept"
      from utf8_next_Decoded[OF Decoded, of kept]
      have k: "k \<le> length rest" and n: "utf8_next b0 (take k rest @ kept) = Decoded c k" by simp_all
      have "subseq (take k rest @ kept) (take k rest @ drop k rest)"
        using kept(1) by (intro list_emb_append_mono) simp_all
      then have "subseq ?K bs" using Cons by simp
      moreover have "decode_utf8 Strict ?K = decode_utf8 Ignore bs"
        using Cons Decoded n k kept(2) by simp
      ultimately show ?thesis by blast
    next
      case (Undecodable k)
      from 1 l obtain kept where
        kept: "subseq kept (drop k rest)" "decode_utf8 Strict kept = decode_utf8 Ignore (drop k rest)"
        by blast
      have "subseq (drop k rest) rest"
        by (metis append_take_drop_id list_emb_append2 subseq_order.order_refl)
      then have "subseq kept bs" using kept(1) Cons
        by (meson subseq_Cons' subseq_order.order_trans list_emb_Cons)
      moreover have "decode_utf8 Strict kept = decode_utf8 Ignore bs"
        using Cons Undecodable kept(2) by simp
      ultimately show ?thesis by blast
    qed
  qed
qed

lemma pack64: fixes x s :: nat assumes "s < 64"
  shows "(x * 64 + s) div 64 = x" "(x * 64 + s) mod 64 = s"
  using assms by simp_all

lemma digits3: fixes p q s :: nat assumes "q < 64" "s < 64"
  shows "(p * 4096 + q * 64 + s) div 4096 = p"
    "(p * 4096 + q * 64 + s) div 64 mod 64 = q"
    "(p * 4096 + q * 64 + s) mod 64 = s"
proof -
  let ?c = "p * 4096 + q * 64 + s"
  define X where "X = p * 64 + q"
  have e: "?c = X * 64 + s" by (simp add: X_def)
  have a: "?c div 64 = X" unfolding e by (rule pack64(1) [OF assms(2)])
  have "?c div 4096 = ?c div 64 div 64" by (simp add: div_mult2_eq [symmetric])
  then show "?c div 4096 = p" unfolding a X_def using pack64(1) [OF assms(1)] by simp
  show "?c div 64 mod 64 = q" unfolding a X_def by (rule pack64(2) [OF assms(1)])
  show "?c mod 64 = s" unfolding e by (rule pack64(2) [OF assms(2)])
qed

lemma digits4: fixes p q r s :: nat assumes "q < 64" "r < 64" "s < 64"
  shows "(p * 262144 + q * 4096 + r * 64 + s) div 262144 = p"
    "(p * 262144 + q * 4096 + r * 64 + s) div 4096 mod 64 = q"
    "(p * 262144 + q * 4096 + r * 64 + s) div 64 mod 64 = r"
    "(p * 262144 + q * 4096 + r * 64 + s) mod 64 = s"
proof -
  let ?c = "p * 262144 + q * 4096 + r * 64 + s"
  define X where "X = p * 4096 + q * 64 + r"
  have e: "?c = X * 64 + s" by (simp add: X_def)
  have a: "?c div 64 = X" unfolding e by (rule pack64(1) [OF assms(3)])
  have "?c div 262144 = ?c div 64 div 4096" by (simp add: div_mult2_eq [symmetric])
  then show "?c div 262144 = p" unfolding a X_def using digits3(1) [OF assms(1,2)] by simp
  have "?c div 4096 = ?c div 64 div 64" by (simp add: div_mult2_eq [symmetric])
  then show "?c div 4096 mod 64 = q" unfolding a X_def using digits3(2) [OF assms(1,2)] by simp
  show "?c div 64 mod 64 = r" unfolding a X_def by (rule digits3(3) [OF assms(1,2)])
  show "?c mod 64 = s" unfolding e by (rule pack64(2) [OF assms(3)])
qed

lemma undigits3: fixes c :: nat
  shows "c div 4096 * 4096 + c div 64 mod 64 * 64 + c mod 64 = c"
proof -
  define A where "A = c div 64"
  have 1: "c = A * 64 + c mod 64" by (simp add: A_def)
  have 2: "A = A div 64 * 64 + A mod 64" by simp
  have 3: "c div 4096 = A div 64" by (simp add: A_def div_mult2_eq [symmetric])
  show ?thesis unfolding 3 A_def [symmetric] using 1 2 by linarith
qed

lemma undigits4: fixes c :: nat
  shows "c div 262144 * 262144 + c div 4096 mod 64 * 4096 + c div 64 mod 64 * 64 + c mod 64 = c"
proof -
  define A where "A = c div 64"
  have 1: "c = A * 64 + c mod 64" by (simp add: A_def)
  have 2: "A div 4096 * 4096 + A div 64 mod 64 * 64 + A mod 64 = A" by (rule undigits3)
  have 3: "c div 4096 = A div 64" by (simp add: A_def div_mult2_eq [symmetric])
  have 4: "c div 262144 = A div 4096" by (simp add: A_def div_mult2_eq [symmetric])
  show ?thesis unfolding 3 4 A_def [symmetric] using 1 2 by linarith
qed

lemma byte_of_nat: "n < 256 \<Longrightarrow> unat (of_nat n :: byte) = n"
  by (simp add: unat_of_nat)

lemma byte_eq_lead:
  "(b = (0xE0::byte)) = (unat b = 0xE0)" "(b = (0xED::byte)) = (unat b = 0xED)"
  "(b = (0xF0::byte)) = (unat b = 0xF0)" "(b = (0xF4::byte)) = (unat b = 0xF4)"
  by (simp_all add: word_unat_eq_iff)

lemma utf8_next_Decoded_cases:
  assumes "utf8_next b0 rest = Decoded c k"
  shows "(k = 0 \<and> unat b0 < 0x80 \<and> c = unat b0)
    \<or> (k = 1 \<and> (\<exists>b1 r. rest = b1 # r \<and> 0xC2 \<le> unat b0 \<and> unat b0 < 0xE0
          \<and> 0x80 \<le> unat b1 \<and> unat b1 \<le> 0xBF
          \<and> c = (unat b0 - 0xC0) * 64 + (unat b1 - 0x80)))
    \<or> (k = 2 \<and> (\<exists>b1 b2 r. rest = b1 # b2 # r \<and> 0xE0 \<le> unat b0 \<and> unat b0 < 0xF0
          \<and> 0x80 \<le> unat b1 \<and> unat b1 \<le> 0xBF \<and> 0x80 \<le> unat b2 \<and> unat b2 \<le> 0xBF
          \<and> (unat b0 = 0xE0 \<longrightarrow> 0xA0 \<le> unat b1) \<and> (unat b0 = 0xED \<longrightarrow> unat b1 < 0xA0)
          \<and> c = (unat b0 - 0xE0) * 4096 + (unat b1 - 0x80) * 64 + (unat b2 - 0x80)))
    \<or> (k = 3 \<and> (\<exists>b1 b2 b3 r. rest = b1 # b2 # b3 # r \<and> 0xF0 \<le> unat b0 \<and> unat b0 < 0xF5
          \<and> 0x80 \<le> unat b1 \<and> unat b1 \<le> 0xBF \<and> 0x80 \<le> unat b2 \<and> unat b2 \<le> 0xBF
          \<and> 0x80 \<le> unat b3 \<and> unat b3 \<le> 0xBF
          \<and> (unat b0 = 0xF0 \<longrightarrow> 0x90 \<le> unat b1) \<and> (unat b0 = 0xF4 \<longrightarrow> unat b1 < 0x90)
          \<and> c = (unat b0 - 0xF0) * 262144 + (unat b1 - 0x80) * 4096 + (unat b2 - 0x80) * 64
                + (unat b3 - 0x80)))"
  using assms unfolding utf8_next_def is_continuation_def
  by (auto simp: word_less_nat_alt word_le_nat_alt byte_eq_lead split: if_splits list.splits)

lemma encoding1:
  assumes "unat b0 < 0x80"
  shows "is_scalar_value (unat b0)" "utf8_encoding (unat b0) = [b0]"
  using assms by (simp_all add: is_scalar_value_def utf8_encoding_def)

lemma encoding2:
  assumes "0xC2 \<le> unat b0" "unat b0 < 0xE0" "0x80 \<le> unat b1" "unat b1 \<le> 0xBF"
    and c: "c = (unat b0 - 0xC0) * 64 + (unat b1 - 0x80)"
  shows "is_scalar_value c" "utf8_encoding c = [b0, b1]"
proof -
  define p where "p = unat b0 - 0xC0"
  define s where "s = unat b1 - 0x80"
  have ps: "2 \<le> p" "p < 32" "s < 64" "0xC0 + p = unat b0" "0x80 + s = unat b1"
    using assms(1-4) by (simp_all add: p_def s_def)
  have c': "c = p * 64 + s" by (simp add: c p_def s_def)
  have d: "c div 64 = p" "c mod 64 = s"
    unfolding c' by (rule pack64 [OF ps(3)])+
  have r: "0x80 \<le> c" "c < 0x800" using ps(1-3) c' by linarith+
  show "is_scalar_value c" using r by (simp add: is_scalar_value_def)
  show "utf8_encoding c = [b0, b1]"
    using r by (simp add: utf8_encoding_def d ps(4,5))
qed

lemma encoding3:
  assumes "0xE0 \<le> unat b0" "unat b0 < 0xF0" "0x80 \<le> unat b1" "unat b1 \<le> 0xBF"
    "0x80 \<le> unat b2" "unat b2 \<le> 0xBF"
    "unat b0 = 0xE0 \<longrightarrow> 0xA0 \<le> unat b1" "unat b0 = 0xED \<longrightarrow> unat b1 < 0xA0"
    and c: "c = (unat b0 - 0xE0) * 4096 + (unat b1 - 0x80) * 64 + (unat b2 - 0x80)"
  shows "is_scalar_value c" "utf8_encoding c = [b0, b1, b2]"
proof -
  define p where "p = unat b0 - 0xE0"
  define q where "q = unat b1 - 0x80"
  define s where "s = unat b2 - 0x80"
  have ps: "p < 16" "q < 64" "s < 64" "0xE0 + p = unat b0" "0x80 + q = unat b1"
    "0x80 + s = unat b2" "p = 0 \<longrightarrow> 32 \<le> q" "p = 13 \<longrightarrow> q < 32"
    using assms(1-8) by (auto simp: p_def q_def s_def)
  have c': "c = p * 4096 + q * 64 + s" by (simp add: c p_def q_def s_def)
  have d: "c div 4096 = p" "c div 64 mod 64 = q" "c mod 64 = s"
    unfolding c' by (rule digits3 [OF ps(2,3)])+
  have lo: "0x800 \<le> c"
  proof (cases "p = 0")
    case True
    then show ?thesis using ps(7) c' by simp
  next
    case False
    then show ?thesis using c' by simp
  qed
  have hi: "c < 0x10000" using ps(1-3) c' by linarith
  have sur: "\<not> (0xD800 \<le> c \<and> c \<le> 0xDFFF)"
  proof
    assume a: "0xD800 \<le> c \<and> c \<le> 0xDFFF"
    then have "c div 4096 = 13" by linarith
    then have "p = 13" using d(1) by simp
    then have "q < 32" using ps(8) by simp
    then have "c < 0xD800" using c' \<open>p = 13\<close> ps(3) by linarith
    then show False using a by simp
  qed
  show "is_scalar_value c" using hi sur by (simp add: is_scalar_value_def)
  show "utf8_encoding c = [b0, b1, b2]"
    using lo hi by (simp add: utf8_encoding_def d ps(4-6))
qed

lemma encoding4:
  assumes "0xF0 \<le> unat b0" "unat b0 < 0xF5" "0x80 \<le> unat b1" "unat b1 \<le> 0xBF"
    "0x80 \<le> unat b2" "unat b2 \<le> 0xBF" "0x80 \<le> unat b3" "unat b3 \<le> 0xBF"
    "unat b0 = 0xF0 \<longrightarrow> 0x90 \<le> unat b1" "unat b0 = 0xF4 \<longrightarrow> unat b1 < 0x90"
    and c: "c = (unat b0 - 0xF0) * 262144 + (unat b1 - 0x80) * 4096 + (unat b2 - 0x80) * 64
              + (unat b3 - 0x80)"
  shows "is_scalar_value c" "utf8_encoding c = [b0, b1, b2, b3]"
proof -
  define p where "p = unat b0 - 0xF0"
  define q where "q = unat b1 - 0x80"
  define r where "r = unat b2 - 0x80"
  define s where "s = unat b3 - 0x80"
  have ps: "p < 5" "q < 64" "r < 64" "s < 64" "0xF0 + p = unat b0" "0x80 + q = unat b1"
    "0x80 + r = unat b2" "0x80 + s = unat b3" "p = 0 \<longrightarrow> 16 \<le> q" "p = 4 \<longrightarrow> q < 16"
    using assms(1-10) by (auto simp: p_def q_def r_def s_def)
  have c': "c = p * 262144 + q * 4096 + r * 64 + s" by (simp add: c p_def q_def r_def s_def)
  have d: "c div 262144 = p" "c div 4096 mod 64 = q" "c div 64 mod 64 = r" "c mod 64 = s"
    unfolding c' by (rule digits4 [OF ps(2-4)])+
  have lo: "0x10000 \<le> c"
  proof (cases "p = 0")
    case True
    then show ?thesis using ps(9) c' by simp
  next
    case False
    then show ?thesis using c' by simp
  qed
  have hi: "c < 0x110000"
  proof (cases "p = 4")
    case True
    then show ?thesis using ps(10) ps(3,4) c' by simp
  next
    case False
    then have "p \<le> 3" using ps(1) by simp
    then show ?thesis using ps(2-4) c' by linarith
  qed
  show "is_scalar_value c" using lo hi by (simp add: is_scalar_value_def)
  show "utf8_encoding c = [b0, b1, b2, b3]"
    using lo hi by (simp add: utf8_encoding_def d ps(5-8))
qed

lemma utf8_next_Decoded_encoding:
  assumes "utf8_next b0 rest = Decoded c k"
  shows "is_scalar_value c \<and> k \<le> length rest \<and> utf8_encoding c = b0 # take k rest"
proof -
  from utf8_next_Decoded_cases [OF assms]
  consider
    (one) "k = 0" "unat b0 < 0x80" "c = unat b0"
  | (two) b1 r where "k = 1" "rest = b1 # r" "0xC2 \<le> unat b0" "unat b0 < 0xE0"
      "0x80 \<le> unat b1" "unat b1 \<le> 0xBF" "c = (unat b0 - 0xC0) * 64 + (unat b1 - 0x80)"
  | (three) b1 b2 r where "k = 2" "rest = b1 # b2 # r" "0xE0 \<le> unat b0" "unat b0 < 0xF0"
      "0x80 \<le> unat b1" "unat b1 \<le> 0xBF" "0x80 \<le> unat b2" "unat b2 \<le> 0xBF"
      "unat b0 = 0xE0 \<longrightarrow> 0xA0 \<le> unat b1" "unat b0 = 0xED \<longrightarrow> unat b1 < 0xA0"
      "c = (unat b0 - 0xE0) * 4096 + (unat b1 - 0x80) * 64 + (unat b2 - 0x80)"
  | (four) b1 b2 b3 r where "k = 3" "rest = b1 # b2 # b3 # r" "0xF0 \<le> unat b0" "unat b0 < 0xF5"
      "0x80 \<le> unat b1" "unat b1 \<le> 0xBF" "0x80 \<le> unat b2" "unat b2 \<le> 0xBF"
      "0x80 \<le> unat b3" "unat b3 \<le> 0xBF"
      "unat b0 = 0xF0 \<longrightarrow> 0x90 \<le> unat b1" "unat b0 = 0xF4 \<longrightarrow> unat b1 < 0x90"
      "c = (unat b0 - 0xF0) * 262144 + (unat b1 - 0x80) * 4096 + (unat b2 - 0x80) * 64
             + (unat b3 - 0x80)"
    by blast
  then show ?thesis
  proof cases
    case one
    show ?thesis
      unfolding one(1,3) using encoding1 [OF one(2)] by simp
  next
    case two
    show ?thesis
      unfolding two(1,2) using encoding2 [OF two(3-7)] by simp
  next
    case three
    show ?thesis
      unfolding three(1,2) using encoding3 [OF three(3-11)] by simp
  next
    case four
    show ?thesis
      unfolding four(1,2) using encoding4 [OF four(3-13)] by simp
  qed
qed

lemma utf8_next_1:
  "unat b0 < 0x80 \<Longrightarrow> utf8_next b0 rest = Decoded (unat b0) 0"
  by (simp add: utf8_next_def word_less_nat_alt)

lemma utf8_next_2:
  assumes "0xC2 \<le> unat b0" "unat b0 < 0xE0" "0x80 \<le> unat b1" "unat b1 \<le> 0xBF"
  shows "utf8_next b0 (b1 # r) = Decoded ((unat b0 - 0xC0) * 64 + (unat b1 - 0x80)) 1"
proof -
  have lead: "\<not> b0 < 0x80" "\<not> b0 < 0xC2" "b0 < 0xE0"
    using assms(1,2) by (simp_all add: word_less_nat_alt)
  have cont: "is_continuation b1"
    using assms(3,4) by (simp add: is_continuation_def word_le_nat_alt)
  show ?thesis by (simp add: utf8_next_def lead cont)
qed

lemma utf8_next_3:
  assumes "0xE0 \<le> unat b0" "unat b0 < 0xF0" "0x80 \<le> unat b1" "unat b1 \<le> 0xBF"
    "0x80 \<le> unat b2" "unat b2 \<le> 0xBF"
    "unat b0 = 0xE0 \<longrightarrow> 0xA0 \<le> unat b1" "unat b0 = 0xED \<longrightarrow> unat b1 < 0xA0"
  shows "utf8_next b0 (b1 # b2 # r) =
     Decoded ((unat b0 - 0xE0) * 4096 + (unat b1 - 0x80) * 64 + (unat b2 - 0x80)) 2"
proof -
  have lead: "\<not> b0 < 0x80" "\<not> b0 < 0xC2" "\<not> b0 < 0xE0" "b0 < 0xF0"
    using assms(1,2) by (simp_all add: word_less_nat_alt)
  have cont: "is_continuation b1" "is_continuation b2"
    using assms(3-6) by (simp_all add: is_continuation_def word_le_nat_alt)
  have ok: "\<not> (if b1 < 0xA0 then b0 = 0xE0 else b0 = 0xED)"
  proof (cases "b1 < 0xA0")
    case True
    then have "unat b1 < 0xA0" by (simp add: word_less_nat_alt)
    then have "unat b0 \<noteq> 0xE0" using assms(7) by auto
    then show ?thesis using True by (simp add: byte_eq_lead)
  next
    case False
    then have "\<not> unat b1 < 0xA0" by (simp add: word_less_nat_alt)
    then have "unat b0 \<noteq> 0xED" using assms(8) by auto
    then show ?thesis using False by (simp add: byte_eq_lead)
  qed
  show ?thesis by (simp add: utf8_next_def lead cont ok)
qed

lemma utf8_next_4:
  assumes "0xF0 \<le> unat b0" "unat b0 < 0xF5" "0x80 \<le> unat b1" "unat b1 \<le> 0xBF"
    "0x80 \<le> unat b2" "unat b2 \<le> 0xBF" "0x80 \<le> unat b3" "unat b3 \<le> 0xBF"
    "unat b0 = 0xF0 \<longrightarrow> 0x90 \<le> unat b1" "unat b0 = 0xF4 \<longrightarrow> unat b1 < 0x90"
  shows "utf8_next b0 (b1 # b2 # b3 # r) =
     Decoded ((unat b0 - 0xF0) * 262144 + (unat b1 - 0x80) * 4096 + (unat b2 - 0x80) * 64
                + (unat b3 - 0x80)) 3"
proof -
  have lead: "\<not> b0 < 0x80" "\<not> b0 < 0xC2" "\<not> b0 < 0xE0" "\<not> b0 < 0xF0" "b0 < 0xF5"
    using assms(1,2) by (simp_all add: word_less_nat_alt)
  have cont: "is_continuation b1" "is_continuation b2" "is_continuation b3"
    using assms(3-8) by (simp_all add: is_continuation_def word_le_nat_alt)
  have ok: "\<not> (if b1 < 0x90 then b0 = 0xF0 else b0 = 0xF4)"
  proof (cases "b1 < 0x90")
    case True
    then have "unat b1 < 0x90" by (simp add: word_less_nat_alt)
    then have "unat b0 \<noteq> 0xF0" using assms(9) by auto
    then show ?thesis using True by (simp add: byte_eq_lead)
  next
    case False
    then have "\<not> unat b1 < 0x90" by (simp add: word_less_nat_alt)
    then have "unat b0 \<noteq> 0xF4" using assms(10) by auto
    then show ?thesis using False by (simp add: byte_eq_lead)
  qed
  show ?thesis by (simp add: utf8_next_def lead cont ok)
qed

lemma utf8_next_encoding:
  assumes "is_scalar_value c"
  shows "\<exists>b0 more. utf8_encoding c = b0 # more
           \<and> utf8_next b0 (more @ rest) = Decoded c (length more)"
proof -
  consider "c < 0x80" | "0x80 \<le> c" "c < 0x800" | "0x800 \<le> c" "c < 0x10000"
    | "0x10000 \<le> c" "c < 0x110000"
    using assms unfolding is_scalar_value_def
    by (cases "c < 0x80"; cases "c < 0x800"; cases "c < 0x10000"; simp)
  then show ?thesis
  proof cases
    case 1
    have u: "unat (of_nat c :: byte) = c" using 1 by (intro byte_of_nat) simp
    have "utf8_next (of_nat c) ([] @ rest) = Decoded c (length ([] :: byte list))"
      using utf8_next_1 [of "of_nat c" rest] 1 u by simp
    moreover have "utf8_encoding c = [of_nat c]" using 1 by (simp add: utf8_encoding_def)
    ultimately show ?thesis by blast
  next
    case 2
    let ?b0 = "of_nat (0xC0 + c div 64) :: byte" and ?b1 = "of_nat (0x80 + c mod 64) :: byte"
    have "c div 64 < 32" using 2 by simp
    moreover have "2 \<le> c div 64" using 2 by simp
    ultimately have p: "2 \<le> c div 64 \<and> c div 64 < 32" by simp
    have u0: "unat ?b0 = 0xC0 + c div 64" using p by (intro byte_of_nat) simp
    have r0: "0xC2 \<le> unat ?b0" "unat ?b0 < 0xE0" unfolding u0 using p by simp_all
    have u1: "unat ?b1 = 0x80 + c mod 64" by (intro byte_of_nat) simp
    have r1: "0x80 \<le> unat ?b1" "unat ?b1 \<le> 0xBF" unfolding u1 by simp_all
    have "(unat ?b0 - 0xC0) * 64 + (unat ?b1 - 0x80) = c" unfolding u0 u1 by simp
    then have "utf8_next ?b0 ([?b1] @ rest) = Decoded c (length [?b1])"
      using utf8_next_2 [OF r0 r1, of rest] by simp
    moreover have "utf8_encoding c = [?b0, ?b1]" using 2 by (simp add: utf8_encoding_def)
    ultimately show ?thesis by blast
  next
    case 3
    let ?b0 = "of_nat (0xE0 + c div 4096) :: byte"
      and ?b1 = "of_nat (0x80 + c div 64 mod 64) :: byte"
      and ?b2 = "of_nat (0x80 + c mod 64) :: byte"
    have p: "c div 4096 < 16" using 3 by simp
    have u0: "unat ?b0 = 0xE0 + c div 4096" using p by (intro byte_of_nat) simp
    have r0: "0xE0 \<le> unat ?b0" "unat ?b0 < 0xF0" unfolding u0 using p by simp_all
    have u1: "unat ?b1 = 0x80 + c div 64 mod 64" by (intro byte_of_nat) simp
    have r1: "0x80 \<le> unat ?b1" "unat ?b1 \<le> 0xBF" unfolding u1 by simp_all
    have u2: "unat ?b2 = 0x80 + c mod 64" by (intro byte_of_nat) simp
    have r2: "0x80 \<le> unat ?b2" "unat ?b2 \<le> 0xBF" unfolding u2 by simp_all
    have lo: "unat ?b0 = 0xE0 \<longrightarrow> 0xA0 \<le> unat ?b1"
    proof
      assume "unat ?b0 = 0xE0"
      then have "c div 4096 = 0" unfolding u0 by simp
      then have "c < 4096" by simp
      then have "c div 64 mod 64 = c div 64" by simp
      moreover have "32 \<le> c div 64" using 3 by simp
      ultimately show "0xA0 \<le> unat ?b1" unfolding u1 by simp
    qed
    have hi: "unat ?b0 = 0xED \<longrightarrow> unat ?b1 < 0xA0"
    proof
      assume "unat ?b0 = 0xED"
      then have e: "c div 4096 = 13" unfolding u0 by simp
      then have "0xD000 \<le> c" "c < 0xE000" by linarith+
      then have "c < 0xD800" using assms by (simp add: is_scalar_value_def)
      have "c = c div 4096 * 4096 + c div 64 mod 64 * 64 + c mod 64"
        by (rule undigits3 [symmetric])
      then have "c div 64 mod 64 * 64 \<le> c - 0xD000" unfolding e by linarith
      then have "c div 64 mod 64 < 32" using \<open>c < 0xD800\<close> by linarith
      then show "unat ?b1 < 0xA0" unfolding u1 by simp
    qed
    have "(unat ?b0 - 0xE0) * 4096 + (unat ?b1 - 0x80) * 64 + (unat ?b2 - 0x80) = c"
      unfolding u0 u1 u2 using undigits3 [of c] by simp
    then have "utf8_next ?b0 ([?b1, ?b2] @ rest) = Decoded c (length [?b1, ?b2])"
      using utf8_next_3 [OF r0 r1 r2 lo hi, of rest] by simp
    moreover have "utf8_encoding c = [?b0, ?b1, ?b2]" using 3 by (simp add: utf8_encoding_def)
    ultimately show ?thesis by blast
  next
    case 4
    let ?b0 = "of_nat (0xF0 + c div 262144) :: byte"
      and ?b1 = "of_nat (0x80 + c div 4096 mod 64) :: byte"
      and ?b2 = "of_nat (0x80 + c div 64 mod 64) :: byte"
      and ?b3 = "of_nat (0x80 + c mod 64) :: byte"
    have p: "c div 262144 < 5" using 4 by simp
    have u0: "unat ?b0 = 0xF0 + c div 262144" using p by (intro byte_of_nat) simp
    have r0: "0xF0 \<le> unat ?b0" "unat ?b0 < 0xF5" unfolding u0 using p by simp_all
    have u1: "unat ?b1 = 0x80 + c div 4096 mod 64" by (intro byte_of_nat) simp
    have r1: "0x80 \<le> unat ?b1" "unat ?b1 \<le> 0xBF" unfolding u1 by simp_all
    have u2: "unat ?b2 = 0x80 + c div 64 mod 64" by (intro byte_of_nat) simp
    have r2: "0x80 \<le> unat ?b2" "unat ?b2 \<le> 0xBF" unfolding u2 by simp_all
    have u3: "unat ?b3 = 0x80 + c mod 64" by (intro byte_of_nat) simp
    have r3: "0x80 \<le> unat ?b3" "unat ?b3 \<le> 0xBF" unfolding u3 by simp_all
    have lo: "unat ?b0 = 0xF0 \<longrightarrow> 0x90 \<le> unat ?b1"
    proof
      assume "unat ?b0 = 0xF0"
      then have "c div 262144 = 0" unfolding u0 by simp
      then have "c < 262144" by simp
      then have "c div 4096 < 64" by simp
      then have "c div 4096 mod 64 = c div 4096" by simp
      moreover have "16 \<le> c div 4096" using 4 by simp
      ultimately show "0x90 \<le> unat ?b1" unfolding u1 by simp
    qed
    have hi: "unat ?b0 = 0xF4 \<longrightarrow> unat ?b1 < 0x90"
    proof
      assume "unat ?b0 = 0xF4"
      then have e: "c div 262144 = 4" unfolding u0 by simp
      have "c = c div 262144 * 262144 + c div 4096 mod 64 * 4096 + c div 64 mod 64 * 64 + c mod 64"
        by (rule undigits4 [symmetric])
      then have "c div 4096 mod 64 * 4096 \<le> c - 0x100000" unfolding e by linarith
      then have "c div 4096 mod 64 < 16" using 4 by linarith
      then show "unat ?b1 < 0x90" unfolding u1 by simp
    qed
    have "(unat ?b0 - 0xF0) * 262144 + (unat ?b1 - 0x80) * 4096 + (unat ?b2 - 0x80) * 64
            + (unat ?b3 - 0x80) = c"
      unfolding u0 u1 u2 u3 using undigits4 [of c] by simp
    then have "utf8_next ?b0 ([?b1, ?b2, ?b3] @ rest) = Decoded c (length [?b1, ?b2, ?b3])"
      using utf8_next_4 [OF r0 r1 r2 r3 lo hi, of rest] by simp
    moreover have "utf8_encoding c = [?b0, ?b1, ?b2, ?b3]"
      using 4 by (simp add: utf8_encoding_def)
    ultimately show ?thesis by blast
  qed
qed

lemma no_encoding_at_undecodable:
  assumes "utf8_next b0 rest = Undecodable k" and "is_scalar_value c"
  shows "\<not> prefix (utf8_encoding c) (b0 # rest)"
proof
  assume "prefix (utf8_encoding c) (b0 # rest)"
  then obtain rest' where r: "b0 # rest = utf8_encoding c @ rest'"
    by (auto simp: prefix_def)
  from utf8_next_encoding [OF assms(2), of rest'] obtain b more where
    e: "utf8_encoding c = b # more" and n: "utf8_next b (more @ rest') = Decoded c (length more)"
    by blast
  from r e have "b = b0" "more @ rest' = rest" by simp_all
  then show False using n assms(1) by simp
qed

lemma utf8_next_Undecodable_span:
  assumes "utf8_next b0 rest = Undecodable k"
  shows "k \<le> length rest \<and> (\<forall>b\<in>set (take k rest). is_continuation b)"
  using assms unfolding utf8_next_def
  by (auto split: if_splits list.splits)

lemma continuation_undecodable:
  assumes "is_continuation b"
  shows "utf8_next b rest = Undecodable 0"
proof -
  have "\<not> b < 0x80" "b < 0xC2"
    using assms by (simp_all add: is_continuation_def word_less_nat_alt word_le_nat_alt)
  then show ?thesis by (simp add: utf8_next_def)
qed

lemma decode_ignore_skip_continuations:
  "k \<le> length bs \<Longrightarrow> \<forall>b\<in>set (take k bs). is_continuation b \<Longrightarrow>
   decode_utf8 Ignore bs = decode_utf8 Ignore (drop k bs)"
proof (induction k arbitrary: bs)
  case 0
  then show ?case by simp
next
  case (Suc k)
  from Suc.prems(1) obtain b bs' where bs: "bs = b # bs'" by (cases bs) auto
  have "is_continuation b" using Suc.prems(2) bs by simp
  then have "decode_utf8 Ignore bs = decode_utf8 Ignore bs'"
    using bs by (simp add: continuation_undecodable)
  moreover have "decode_utf8 Ignore bs' = decode_utf8 Ignore (drop k bs')"
    using Suc.prems bs by (intro Suc.IH) simp_all
  ultimately show ?case using bs by simp
qed

lemma dropping_undecodable_skip_continuations:
  "k \<le> length bs \<Longrightarrow> \<forall>b\<in>set (take k bs). is_continuation b \<Longrightarrow>
   dropping_undecodable (drop k bs) t \<Longrightarrow> dropping_undecodable bs t"
proof (induction k arbitrary: bs)
  case 0
  then show ?case by simp
next
  case (Suc k)
  from Suc.prems(1) obtain b bs' where bs: "bs = b # bs'" by (cases bs) auto
  have c: "is_continuation b" using Suc.prems(2) bs by simp
  have "dropping_undecodable bs' t"
    using Suc.prems bs Suc.IH [of bs'] by simp
  moreover have "\<forall>c. is_scalar_value c \<longrightarrow> \<not> prefix (utf8_encoding c) (b # bs')"
    using no_encoding_at_undecodable [OF continuation_undecodable [OF c]] by blast
  ultimately show ?case unfolding bs by (rule dropping_undecodable.dropped [rotated])
qed

lemma decode_ignore_dropping_undecodable:
  "decode_utf8 Ignore bs = Inr t \<Longrightarrow> dropping_undecodable bs t"
proof (induction bs arbitrary: t rule: length_induct)
  case (1 bs)
  show ?case
  proof (cases bs)
    case Nil
    then show ?thesis using "1.prems" by (simp add: dropping_undecodable.finished)
  next
    case (Cons b0 rest)
    have l: "length (drop k rest) < length bs" for k using Cons by simp
    show ?thesis
    proof (cases "utf8_next b0 rest")
      case (Decoded c k)
      from "1.prems" Cons Decoded obtain t' where
        t': "decode_utf8 Ignore (drop k rest) = Inr t'" "t = c # t'"
        by (auto split: sum.splits)
      have d: "dropping_undecodable (drop k rest) t'" using 1 l t'(1) by blast
      from utf8_next_Decoded_encoding [OF Decoded] have
        s: "is_scalar_value c" and e: "utf8_encoding c = b0 # take k rest" by simp_all
      have "bs = utf8_encoding c @ drop k rest" unfolding e Cons by simp
      then show ?thesis using dropping_undecodable.decoded [OF s d] t'(2) by simp
    next
      case (Undecodable k)
      have "decode_utf8 Ignore (drop k rest) = Inr t" using "1.prems" Cons Undecodable by simp
      then have "dropping_undecodable (drop k rest) t" using 1 l by blast
      then have "dropping_undecodable rest t"
        using utf8_next_Undecodable_span [OF Undecodable]
          dropping_undecodable_skip_continuations [of k rest t]
        by blast
      moreover have "\<forall>c. is_scalar_value c \<longrightarrow> \<not> prefix (utf8_encoding c) (b0 # rest)"
        using no_encoding_at_undecodable [OF Undecodable] by blast
      ultimately show ?thesis unfolding Cons by (rule dropping_undecodable.dropped [rotated])
    qed
  qed
qed

lemma dropping_undecodable_decode_ignore:
  "dropping_undecodable bs t \<Longrightarrow> decode_utf8 Ignore bs = Inr t"
proof (induction rule: dropping_undecodable.induct)
  case finished
  then show ?case by simp
next
  case (decoded c bs t)
  from utf8_next_encoding [OF decoded.hyps(1), of bs] obtain b0 more where
    e: "utf8_encoding c = b0 # more" and n: "utf8_next b0 (more @ bs) = Decoded c (length more)"
    by blast
  show ?case unfolding e using n decoded.IH by simp
next
  case (dropped b bs t)
  show ?case
  proof (cases "utf8_next b bs")
    case (Decoded c k)
    from utf8_next_Decoded_encoding [OF Decoded] have
      "is_scalar_value c" and "utf8_encoding c = b # take k bs" by simp_all
    moreover have "prefix (b # take k bs) (b # bs)" by (simp add: take_is_prefix)
    ultimately show ?thesis using dropped.hyps(1) by auto
  next
    case (Undecodable k)
    have "decode_utf8 Ignore bs = decode_utf8 Ignore (drop k bs)"
      using utf8_next_Undecodable_span [OF Undecodable]
      by (intro decode_ignore_skip_continuations) simp_all
    then show ?thesis using Undecodable dropped.IH by simp
  qed
qed

lemma dropping_undecodable_iff:
  "dropping_undecodable bs t \<longleftrightarrow> decode_utf8 Ignore bs = Inr t"
  using decode_ignore_dropping_undecodable dropping_undecodable_decode_ignore by blast

section \<open>Document question answering\<close>

text \<open>
  Claim C4. For every question and language, \<open>tool_document_qa\<close> with a blank document
  context (empty, or whitespace only) returns the fixed no-document message and sends
  nothing to the model. With a context that is not blank it sends one prompt, and the
  document text in that prompt is the first 25,000 characters of the context at most: the
  prompt is fixed text around \<open>take 25000 doc_text\<close>, whatever the document.
\<close>

theorem document_qa_blank_or_truncated:
  "((\<forall>c\<in>set doc_text. isspace c) \<longrightarrow>
      tool_document_qa model question doc_text language = (Inr no_document_message, []))
   \<and> (\<not> (\<forall>c\<in>set doc_text. isspace c) \<longrightarrow>
        (\<exists>pre post.
           snd (tool_document_qa model question doc_text language)
             = [Prompt (pre @ take 25000 doc_text @ post)]
           \<and> (\<forall>d. document_qa_prompt question d language = pre @ take 25000 d @ post)))"
proof (intro conjI impI)
  assume "\<forall>c\<in>set doc_text. isspace c"
  then have "strip doc_text = []" by (simp add: strip_empty_iff)
  then show "tool_document_qa model question doc_text language = (Inr no_document_message, [])"
    by (simp add: tool_document_qa_def)
next
  assume "\<not> (\<forall>c\<in>set doc_text. isspace c)"
  then have n: "strip doc_text \<noteq> []" by (simp add: strip_empty_iff)
  define pre where "pre = take (length (document_qa_prompt question [] language) - length (str ''\"\"\"  # (truncated if very long)\<newline>'')) (document_qa_prompt question [] language)"
  define post where "post = str ''\"\"\"  # (truncated if very long)\<newline>''"
  have p: "document_qa_prompt question d language = pre @ take 25000 d @ post" for d
    unfolding pre_def post_def document_qa_prompt_def by simp
  have "snd (tool_document_qa model question doc_text language)
          = [Prompt (pre @ take 25000 doc_text @ post)]"
    using n by (simp add: tool_document_qa_def generate_text_sent p)
  with p show "\<exists>pre post.
           snd (tool_document_qa model question doc_text language)
             = [Prompt (pre @ take 25000 doc_text @ post)]
           \<and> (\<forall>d. document_qa_prompt question d language = pre @ take 25000 d @ post)"
    by blast
qed

theorem document_qa_blank_or_truncated_witness:
  "tool_document_qa (\<lambda>p. Inl (GatewayError [])) (str ''q'') (str '' \<newline>'') (str ''English'')
     = (Inr no_document_message, [])
   \<and> (\<exists>pre post.
         snd (tool_document_qa (\<lambda>p. Inl (GatewayError [])) (str ''q'') (replicate 25001 97) (str ''English''))
           = [Prompt (pre @ replicate 25000 97 @ post)]
         \<and> (\<forall>d. document_qa_prompt (str ''q'') d (str ''English'') = pre @ take 25000 d @ post))"
proof -
  have blank: "\<forall>c\<in>set (str '' \<newline>''). isspace c"
    by (simp add: str_def isspace_def)
  have nonblank: "\<not> (\<forall>c\<in>set (replicate 25001 (97::nat)). isspace c)"
    by (simp add: isspace_def)
  show ?thesis
    using document_qa_blank_or_truncated [of "str '' \<newline>''" "\<lambda>p. Inl (GatewayError [])" "str ''q''" "str ''English''"]
      document_qa_blank_or_truncated [of "replicate 25001 97" "\<lambda>p. Inl (GatewayError [])" "str ''q''" "str ''English''"]
      blank nonblank
    by simp
qed

section \<open>Resume review\<close>

text \<open>
  Claim C5. For every resume text and language, \<open>tool_resume_review\<close> with blank resume
  text returns the fixed instructional message and sends nothing to the model. With text
  that is not blank and longer than 20,000 characters it sends one prompt, and the text in
  that prompt is exactly the first 20,000 characters of the input.
\<close>

theorem resume_review_blank_or_truncated:
  "((\<forall>c\<in>set resume_text. isspace c) \<longrightarrow>
      tool_resume_review model resume_text language = (Inr no_resume_message, []))
   \<and> (\<not> (\<forall>c\<in>set resume_text. isspace c) \<and> 20000 < length resume_text \<longrightarrow>
        (\<exists>pre post.
           snd (tool_resume_review model resume_text language)
             = [Prompt (pre @ take 20000 resume_text @ post)]
           \<and> length (take 20000 resume_text) = 20000
           \<and> (\<forall>r. resume_review_prompt r language = pre @ take 20000 r @ post)))"
proof (intro conjI impI)
  assume "\<forall>c\<in>set resume_text. isspace c"
  then have "strip resume_text = []" by (simp add: strip_empty_iff)
  then show "tool_resume_review model resume_text language = (Inr no_resume_message, [])"
    by (simp add: tool_resume_review_def)
next
  assume a: "\<not> (\<forall>c\<in>set resume_text. isspace c) \<and> 20000 < length resume_text"
  then have n: "strip resume_text \<noteq> []" by (simp add: strip_empty_iff)
  define post where "post = str ''\"\"\"\<newline>''"
  define pre where
    "pre = take (length (resume_review_prompt [] language) - length post)
             (resume_review_prompt [] language)"
  have p: "resume_review_prompt r language = pre @ take 20000 r @ post" for r
    unfolding pre_def post_def resume_review_prompt_def by simp
  have "snd (tool_resume_review model resume_text language)
          = [Prompt (pre @ take 20000 resume_text @ post)]"
    using n by (simp add: tool_resume_review_def generate_text_sent p)
  moreover have "length (take 20000 resume_text) = 20000" using a by simp
  ultimately show "\<exists>pre post.
           snd (tool_resume_review model resume_text language)
             = [Prompt (pre @ take 20000 resume_text @ post)]
           \<and> length (take 20000 resume_text) = 20000
           \<and> (\<forall>r. resume_review_prompt r language = pre @ take 20000 r @ post)"
    using p by blast
qed

theorem resume_review_blank_or_truncated_witness:
  "tool_resume_review (\<lambda>p. Inl (GatewayError [])) [] (str ''English'') = (Inr no_resume_message, [])
   \<and> (\<exists>pre post.
         snd (tool_resume_review (\<lambda>p. Inl (GatewayError [])) (replicate 20001 97) (str ''English''))
           = [Prompt (pre @ replicate 20000 97 @ post)]
         \<and> (\<forall>r. resume_review_prompt r (str ''English'') = pre @ take 20000 r @ post))"
proof -
  have nonblank: "\<not> (\<forall>c\<in>set (replicate 20001 (97::nat)). isspace c)"
    by (simp add: isspace_def)
  show ?thesis
    using resume_review_blank_or_truncated [of "[]" "\<lambda>p. Inl (GatewayError [])" "str ''English''"]
      resume_review_blank_or_truncated [of "replicate 20001 97" "\<lambda>p. Inl (GatewayError [])" "str ''English''"]
      nonblank
    by simp
qed

section \<open>The General Assistant payload\<close>

text \<open>
  Claim C7. For every history of n prior turns and every current input,
  \<open>tool_general_chat\<close> sends one structured payload of exactly 2n+2 entries: a leading
  user entry holding the framing text with the role and the reply language in it (the
  text is written out in the statement), then for each prior turn in order a
  user entry with its user text followed by a model entry with its assistant text, then a
  final user entry with the current input.
\<close>

theorem general_chat_contents_shape:
  "\<exists>contents.
     snd (tool_general_chat model user_input language role history) = [Contents contents]
     \<and> length contents = 2 * length history + 2
     \<and> contents =
         [\<lparr>entry_role = str ''user'',
           entry_parts =
             [str ''\<newline>You are GenieTalk, an AI agentic assistant.\<newline>\<newline>Role: '' @ role @
              str ''\<newline>\<newline>You must:\<newline>- Be helpful and concise.\<newline>'' @
              str ''- Adapt your tone to the role (e.g., more emotional for Emotional Support, technical for Coding Help).\<newline>'' @
              str ''- Always respond in this language: '' @ language @ str ''.\<newline>'']\<rparr>]
         @ concat (map (\<lambda>t. [\<lparr>entry_role = str ''user'', entry_parts = [user t]\<rparr>,
                               \<lparr>entry_role = str ''model'', entry_parts = [assistant t]\<rparr>]) history)
         @ [\<lparr>entry_role = str ''user'', entry_parts = [user_input]\<rparr>]"
proof -
  let ?pair = "\<lambda>t. [\<lparr>entry_role = str ''user'', entry_parts = [user t]\<rparr>,
                     \<lparr>entry_role = str ''model'', entry_parts = [assistant t]\<rparr>]"
  let ?framing = "str ''\<newline>You are GenieTalk, an AI agentic assistant.\<newline>\<newline>Role: '' @ role @
              str ''\<newline>\<newline>You must:\<newline>- Be helpful and concise.\<newline>'' @
              str ''- Adapt your tone to the role (e.g., more emotional for Emotional Support, technical for Coding Help).\<newline>'' @
              str ''- Always respond in this language: '' @ language @ str ''.\<newline>''"
  have framing: "system_prompt role language = ?framing"
    by (simp add: system_prompt_def str_def)
  have len: "length (concat (map ?pair h)) = 2 * length h" for h
    by (induction h) simp_all
  have eq: "general_chat_contents user_input language role history =
         [\<lparr>entry_role = str ''user'', entry_parts = [?framing]\<rparr>]
         @ concat (map ?pair history)
         @ [\<lparr>entry_role = str ''user'', entry_parts = [user_input]\<rparr>]"
    unfolding framing [symmetric]
    by (simp add: general_chat_contents_def history_contents_eq)
  have "length (general_chat_contents user_input language role history) = 2 * length history + 2"
    unfolding eq using len [of history] by simp
  then show ?thesis
    using eq by (simp add: tool_general_chat_def generate_text_sent)
qed

theorem general_chat_contents_shape_witness:
  "\<exists>contents.
     snd (tool_general_chat (\<lambda>p. Inl (GatewayError [])) (str ''now'') (str ''Hindi'') (str ''General Assistant'')
            [\<lparr>user = str ''u1'', assistant = str ''a1''\<rparr>, \<lparr>user = str ''u2'', assistant = str ''a2''\<rparr>])
       = [Contents contents]
     \<and> length contents = 6
     \<and> contents =
         [\<lparr>entry_role = str ''user'',
           entry_parts =
             [str ''\<newline>You are GenieTalk, an AI agentic assistant.\<newline>\<newline>Role: General Assistant\<newline>\<newline>You must:\<newline>- Be helpful and concise.\<newline>- Adapt your tone to the role (e.g., more emotional for Emotional Support, technical for Coding Help).\<newline>- Always respond in this language: Hindi.\<newline>'']\<rparr>,
          \<lparr>entry_role = str ''user'', entry_parts = [str ''u1'']\<rparr>,
          \<lparr>entry_role = str ''model'', entry_parts = [str ''a1'']\<rparr>,
          \<lparr>entry_role = str ''user'', entry_parts = [str ''u2'']\<rparr>,
          \<lparr>entry_role = str ''model'', entry_parts = [str ''a2'']\<rparr>,
          \<lparr>entry_role = str ''user'', entry_parts = [str ''now'']\<rparr>]"
proof -
  have framing: "str ''\<newline>You are GenieTalk, an AI agentic assistant.\<newline>\<newline>Role: '' @ str ''General Assistant'' @
              str ''\<newline>\<newline>You must:\<newline>- Be helpful and concise.\<newline>'' @
              str ''- Adapt your tone to the role (e.g., more emotional for Emotional Support, technical for Coding Help).\<newline>'' @
              str ''- Always respond in this language: '' @ str ''Hindi'' @ str ''.\<newline>''
     = str ''\<newline>You are GenieTalk, an AI agentic assistant.\<newline>\<newline>Role: General Assistant\<newline>\<newline>You must:\<newline>- Be helpful and concise.\<newline>- Adapt your tone to the role (e.g., more emotional for Emotional Support, technical for Coding Help).\<newline>- Always respond in this language: Hindi.\<newline>''"
    by (simp add: str_def)
  show ?thesis
    using general_chat_contents_shape [of "\<lambda>p. Inl (GatewayError [])" "str ''now''" "str ''Hindi''"
      "str ''General Assistant''"
      "[\<lparr>user = str ''u1'', assistant = str ''a1''\<rparr>, \<lparr>user = str ''u2'', assistant = str ''a2''\<rparr>]"]
    unfolding framing by simp
qed

section \<open>The agentic prompt\<close>

lemma framing_base: "\<exists>pre::'a list. \<forall>h d. s h d = pre @ s h d"
  by (rule exI [of _ "[]"]) simp

lemma framing_step:
  "\<exists>pre::'a list. \<forall>h d. t h d = pre @ s h d \<Longrightarrow> \<exists>pre. \<forall>h d. a @ t h d = pre @ s h d"
  by (metis append.assoc)

lemma agentic_sent:
  "snd (agentic_plan_and_execute model goal role language doc_text chat_history) =
     [Prompt (agentic_prompt goal role language doc_text chat_history)]"
proof -
  let ?p = "Prompt (agentic_prompt goal role language doc_text chat_history)"
  obtain r sent where g: "generate_text model ?p = (r, sent)"
    by (cases "generate_text model ?p")
  then have "sent = [?p]" using generate_text_sent [of model ?p] by simp
  then show ?thesis using g by (cases r) (simp_all add: agentic_plan_and_execute_def)
qed

text \<open>
  Claim C6. For every conversation history, the history section of the AgenticGoal prompt
  holds exactly the last min(6, len(history)) turns, in order (with 7 prior turns the last
  6, not all 7), each as a \<open>User:\<close> line and an \<open>Assistant:\<close> line; and a document context
  that is not blank enters the prompt as its first 8,000 characters at most. The framing
  text around the turns and around the document does not depend on either.
\<close>

theorem agentic_history_window:
  "\<exists>heading doc_pre doc_post pre mid post.
     \<forall>chat_history doc_text.
       (\<exists>earlier recent.
          chat_history = earlier @ recent
          \<and> length recent = min 6 (length chat_history)
          \<and> history_text chat_history =
               (if chat_history = [] then []
                else heading @
                     concat (map (\<lambda>t. str ''User: '' @ user t @ str ''\<newline>'' @
                                          str ''Assistant: '' @ assistant t @ str ''\<newline>'') recent)))
       \<and> doc_hint doc_text =
            (if (\<forall>c\<in>set doc_text. isspace c) then []
             else doc_pre @ take 8000 doc_text @ doc_post)
       \<and> (\<forall>model.
            snd (agentic_plan_and_execute model goal role language doc_text chat_history) =
              [Prompt (pre @ history_text chat_history @ mid @ doc_hint doc_text @ post)])"
proof -
  let ?line = "\<lambda>t. str ''User: '' @ user t @ str ''\<newline>'' @
                     str ''Assistant: '' @ assistant t @ str ''\<newline>''"
  let ?heading = "str ''\<newline>'' @ str ''Previous conversation:\<newline>''"
  let ?doc_pre = "str ''\<newline>'' @ str ''\<newline>'' @
                 str ''The user also provided document text. You can treat it as context when needed:\<newline>'' @
                 str ''\"\"\"''"
  let ?doc_post = "str ''\"\"\"''"
  have hist: "\<exists>earlier recent.
          h = earlier @ recent
          \<and> length recent = min 6 (length h)
          \<and> history_text h =
               (if h = [] then [] else ?heading @ concat (map ?line recent))" for h
  proof -
    let ?recent = "drop (length h - 6) h"
    have "h = take (length h - 6) h @ ?recent" by simp
    moreover have "length ?recent = min 6 (length h)" by simp
    moreover have "history_text h =
               (if h = [] then [] else ?heading @ concat (map ?line ?recent))"
      by (simp add: history_text_def history_lines_eq)
    ultimately show ?thesis by blast
  qed
  have hint: "doc_hint d =
          (if (\<forall>c\<in>set d. isspace c) then [] else ?doc_pre @ take 8000 d @ ?doc_post)" for d
    by (simp add: doc_hint_def strip_empty_iff)
  have "\<exists>pre. \<forall>h d. agentic_prompt goal role language d h =
          pre @ history_text h @ str ''\<newline>'' @ doc_hint d @ str ''\<newline>''"
    unfolding agentic_prompt_def by (rule framing_base | rule framing_step)+
  then obtain pre where pre: "\<And>h d. agentic_prompt goal role language d h =
          pre @ history_text h @ str ''\<newline>'' @ doc_hint d @ str ''\<newline>''"
    by blast
  have sent: "snd (agentic_plan_and_execute model goal role language d h) =
          [Prompt (pre @ history_text h @ str ''\<newline>'' @ doc_hint d @ str ''\<newline>'')]" for model d h
    using pre [of d h] by (simp add: agentic_sent)
  show ?thesis
    apply (rule exI [of _ ?heading])
    apply (rule exI [of _ ?doc_pre])
    apply (rule exI [of _ ?doc_post])
    apply (rule exI [of _ pre])
    apply (rule exI [of _ "str ''\<newline>''"])
    apply (rule exI [of _ "str ''\<newline>''"])
    using hist hint sent by blast
qed

theorem agentic_history_window_witness:
  "\<exists>heading pre mid post.
     history_text
       [\<lparr>user = str ''q1'', assistant = str ''a1''\<rparr>, \<lparr>user = str ''q2'', assistant = str ''a2''\<rparr>,
        \<lparr>user = str ''q3'', assistant = str ''a3''\<rparr>, \<lparr>user = str ''q4'', assistant = str ''a4''\<rparr>,
        \<lparr>user = str ''q5'', assistant = str ''a5''\<rparr>, \<lparr>user = str ''q6'', assistant = str ''a6''\<rparr>,
        \<lparr>user = str ''q7'', assistant = str ''a7''\<rparr>]
       = heading @
         concat (map (\<lambda>t. str ''User: '' @ user t @ str ''\<newline>'' @
                              str ''Assistant: '' @ assistant t @ str ''\<newline>'')
           [\<lparr>user = str ''q2'', assistant = str ''a2''\<rparr>,
            \<lparr>user = str ''q3'', assistant = str ''a3''\<rparr>, \<lparr>user = str ''q4'', assistant = str ''a4''\<rparr>,
            \<lparr>user = str ''q5'', assistant = str ''a5''\<rparr>, \<lparr>user = str ''q6'', assistant = str ''a6''\<rparr>,
            \<lparr>user = str ''q7'', assistant = str ''a7''\<rparr>])
     \<and> snd (agentic_plan_and_execute (\<lambda>p. Inl (GatewayError [])) (str ''plan'') (str ''Coding Help'')
              (str ''English'') []
              [\<lparr>user = str ''q1'', assistant = str ''a1''\<rparr>, \<lparr>user = str ''q2'', assistant = str ''a2''\<rparr>,
               \<lparr>user = str ''q3'', assistant = str ''a3''\<rparr>, \<lparr>user = str ''q4'', assistant = str ''a4''\<rparr>,
               \<lparr>user = str ''q5'', assistant = str ''a5''\<rparr>, \<lparr>user = str ''q6'', assistant = str ''a6''\<rparr>,
               \<lparr>user = str ''q7'', assistant = str ''a7''\<rparr>])
         = [Prompt (pre @ heading @
              concat (map (\<lambda>t. str ''User: '' @ user t @ str ''\<newline>'' @
                                   str ''Assistant: '' @ assistant t @ str ''\<newline>'')
                [\<lparr>user = str ''q2'', assistant = str ''a2''\<rparr>,
                 \<lparr>user = str ''q3'', assistant = str ''a3''\<rparr>, \<lparr>user = str ''q4'', assistant = str ''a4''\<rparr>,
                 \<lparr>user = str ''q5'', assistant = str ''a5''\<rparr>, \<lparr>user = str ''q6'', assistant = str ''a6''\<rparr>,
                 \<lparr>user = str ''q7'', assistant = str ''a7''\<rparr>])
              @ mid @ post)]"
proof -
  let ?line = "\<lambda>t. str ''User: '' @ user t @ str ''\<newline>'' @
                     str ''Assistant: '' @ assistant t @ str ''\<newline>''"
  let ?h = "[\<lparr>user = str ''q1'', assistant = str ''a1''\<rparr>, \<lparr>user = str ''q2'', assistant = str ''a2''\<rparr>,
        \<lparr>user = str ''q3'', assistant = str ''a3''\<rparr>, \<lparr>user = str ''q4'', assistant = str ''a4''\<rparr>,
        \<lparr>user = str ''q5'', assistant = str ''a5''\<rparr>, \<lparr>user = str ''q6'', assistant = str ''a6''\<rparr>,
        \<lparr>user = str ''q7'', assistant = str ''a7''\<rparr>]"
  from agentic_history_window [of "str ''plan''" "str ''Coding Help''" "str ''English''"]
  obtain heading doc_pre doc_post pre mid post where
    w: "\<And>chat_history doc_text.
       (\<exists>earlier recent.
          chat_history = earlier @ recent
          \<and> length recent = min 6 (length chat_history)
          \<and> history_text chat_history =
               (if chat_history = [] then [] else heading @ concat (map ?line recent)))
       \<and> doc_hint doc_text =
            (if (\<forall>c\<in>set doc_text. isspace c) then []
             else doc_pre @ take 8000 doc_text @ doc_post)
       \<and> (\<forall>model.
            snd (agentic_plan_and_execute model (str ''plan'') (str ''Coding Help'') (str ''English'')
                   doc_text chat_history) =
              [Prompt (pre @ history_text chat_history @ mid @ doc_hint doc_text @ post)])"
    by blast
  from w [of ?h "[]"] obtain earlier recent where
    r: "?h = earlier @ recent" "length recent = min 6 (length ?h)"
       "history_text ?h = heading @ concat (map ?line recent)"
    by auto
  from r(1) have "recent = drop (length ?h - length recent) ?h"
    by (metis append_eq_conv_conj diff_add_inverse2 length_append)
  then have recent: "recent = drop 1 ?h" using r(2) by simp
  have hint: "doc_hint [] = []" using w [of ?h "[]"] by simp
  have sent: "snd (agentic_plan_and_execute (\<lambda>p. Inl (GatewayError [])) (str ''plan'') (str ''Coding Help'')
              (str ''English'') [] ?h)
         = [Prompt (pre @ history_text ?h @ mid @ doc_hint [] @ post)]"
    using w [of ?h "[]"] by blast
  show ?thesis
    apply (rule exI [of _ heading])
    apply (rule exI [of _ pre])
    apply (rule exI [of _ mid])
    apply (rule exI [of _ post])
    using r(3) sent unfolding hint recent by simp
qed


section \<open>Handling one input\<close>

lemma generate_text_pair: "generate_text model p = (fst (generate_text model p), [p])"
  using generate_text_sent [of model p] by (cases "generate_text model p") simp

lemma chat_reply_roles:
  "chat_reply model (str ''General Assistant'') user_input language doc history =
     tool_general_chat model user_input language (str ''General Assistant'') history"
  "chat_reply model (str ''Coding Help'') user_input language doc history =
     tool_coding_help model user_input language"
  "chat_reply model (str ''Resume Review'') user_input language doc history =
     tool_resume_review model (if doc \<noteq> [] then doc else user_input) language"
  "chat_reply model (str ''Emotional Support'') user_input language doc history =
     tool_emotional_support model user_input language"
  "chat_reply model (str ''Document QA'') user_input language doc history =
     tool_document_qa model user_input doc language"
  "chat_reply model (str ''Translator'') user_input language doc history =
     tool_translate model user_input language"
  by (simp_all add: chat_reply_def str_def)

lemma chat_reply_other:
  assumes "role \<noteq> str ''General Assistant''" "role \<noteq> str ''Coding Help''"
    "role \<noteq> str ''Resume Review''" "role \<noteq> str ''Emotional Support''"
    "role \<noteq> str ''Document QA''" "role \<noteq> str ''Translator''"
  shows "chat_reply model role user_input language doc history =
     tool_general_chat model user_input language role history"
  using assms by (simp add: chat_reply_def)

lemma chat_reply_shape:
  "(\<exists>a. chat_reply model role user_input language doc history = (Inr a, []))
   \<or> (\<exists>p. chat_reply model role user_input language doc history = generate_text model p)"
proof -
  consider "role = str ''General Assistant''" | "role = str ''Coding Help''"
    | "role = str ''Resume Review''" | "role = str ''Emotional Support''"
    | "role = str ''Document QA''" | "role = str ''Translator''"
    | "role \<noteq> str ''General Assistant''" "role \<noteq> str ''Coding Help''"
      "role \<noteq> str ''Resume Review''" "role \<noteq> str ''Emotional Support''"
      "role \<noteq> str ''Document QA''" "role \<noteq> str ''Translator''"
    by blast
  then show ?thesis
  proof cases
    case 1
    then show ?thesis unfolding 1 chat_reply_roles tool_general_chat_def by blast
  next
    case 2
    then show ?thesis unfolding 2 chat_reply_roles tool_coding_help_def by blast
  next
    case 3
    then show ?thesis unfolding 3 chat_reply_roles tool_resume_review_def
      by (cases "strip (if doc \<noteq> [] then doc else user_input) = []") auto
  next
    case 4
    then show ?thesis unfolding 4 chat_reply_roles tool_emotional_support_def by blast
  next
    case 5
    then show ?thesis unfolding 5 chat_reply_roles tool_document_qa_def
      by (cases "strip doc = []") auto
  next
    case 6
    then show ?thesis unfolding 6 chat_reply_roles tool_translate_def by blast
  next
    case 7
    then show ?thesis unfolding chat_reply_other [OF 7] tool_general_chat_def by blast
  qed
qed

lemma handle_input_chat:
  "user_input \<noteq> [] \<Longrightarrow> api_key \<noteq> [] \<Longrightarrow>
   handle_input genai api_key (str ''Chat'') role language doc (Some user_input) st =
     handle_chat (init_gemini genai api_key default_model_name) role language doc user_input st"
  by (simp add: handle_input_def)

lemma handle_chat_reply:
  assumes "chat_reply model role user_input language doc (messages st) = (r, sent)"
  shows "calls (handle_chat model role language doc user_input st) = sent
     \<and> (case r of
          Inl e \<Rightarrow> outcome (handle_chat model role language doc user_input st) = Raised e
                   \<and> session (handle_chat model role language doc user_input st) = st
        | Inr a \<Rightarrow> outcome (handle_chat model role language doc user_input st) = Finished
                   \<and> session (handle_chat model role language doc user_input st) =
                       st\<lparr>messages := messages st @ [\<lparr>user = user_input, assistant = a\<rparr>]\<rparr>)"
  using assms by (cases r) (simp_all add: handle_chat_def)

lemma chat_run_reply:
  assumes "user_input \<noteq> []" and "api_key \<noteq> []"
  shows
    "calls (handle_input genai api_key (str ''Chat'') role language doc (Some user_input) st)
       = snd (chat_reply (init_gemini genai api_key default_model_name) role user_input language doc
               (messages st))
     \<and> (case fst (chat_reply (init_gemini genai api_key default_model_name) role user_input language
                    doc (messages st)) of
           Inl e \<Rightarrow>
             outcome (handle_input genai api_key (str ''Chat'') role language doc (Some user_input) st)
               = Raised e
         | Inr a \<Rightarrow>
             outcome (handle_input genai api_key (str ''Chat'') role language doc (Some user_input) st)
               = Finished
             \<and> messages (session (handle_input genai api_key (str ''Chat'') role language doc
                                    (Some user_input) st))
                 = messages st @ [\<lparr>user = user_input, assistant = a\<rparr>])"
proof -
  let ?model = "init_gemini genai api_key default_model_name"
  let ?reply = "chat_reply ?model role user_input language doc (messages st)"
  have R: "handle_input genai api_key (str ''Chat'') role language doc (Some user_input) st
             = handle_chat ?model role language doc user_input st"
    using assms by (simp add: handle_input_chat)
  obtain r sent where rs: "?reply = (r, sent)" by (cases ?reply)
  show ?thesis
    using handle_chat_reply [OF rs] unfolding R rs by (cases r) simp_all
qed

text \<open>
  Claim C1. For every submitted user input in Chat mode, if the call to the model fails
  (the call raises, or reading the response text does), no turn is appended: the messages
  after the run are the messages before it, and the run ends with that exception.
\<close>

theorem gateway_failure_appends_no_turn:
  assumes "user_input \<noteq> []" and "api_key \<noteq> []"
    and "R = handle_input genai api_key (str ''Chat'') role language doc (Some user_input) st"
    and "p \<in> set (calls R)"
    and "fst (generate_text (init_gemini genai api_key default_model_name) p) = Inl e"
  shows "messages (session R) = messages st \<and> session R = st \<and> outcome R = Raised e"
proof -
  let ?model = "init_gemini genai api_key default_model_name"
  let ?reply = "chat_reply ?model role user_input language doc (messages st)"
  have R: "R = handle_chat ?model role language doc user_input st"
    using assms(1-3) by (simp add: handle_input_chat)
  obtain r sent where rs: "?reply = (r, sent)" by (cases ?reply)
  from handle_chat_reply [OF rs] have c: "calls R = sent"
    and o: "case r of
          Inl e \<Rightarrow> outcome R = Raised e \<and> session R = st
        | Inr a \<Rightarrow> outcome R = Finished
                   \<and> session R = st\<lparr>messages := messages st @ [\<lparr>user = user_input, assistant = a\<rparr>]\<rparr>"
    unfolding R by simp_all
  from chat_reply_shape [of ?model role user_input language doc "messages st"]
  obtain q where q: "?reply = generate_text ?model q"
    using rs c assms(4) by auto
  then have "(r, sent) = (fst (generate_text ?model q), [q])"
    using rs generate_text_pair [of ?model q] by simp
  then have "sent = [q]" "r = fst (generate_text ?model q)" by simp_all
  then have "r = Inl e" using assms(4,5) c by simp
  then show ?thesis using o by simp
qed

theorem gateway_failure_appends_no_turn_witness:
  "messages (session (handle_input (\<lambda>k m p. Inl (GatewayError (str ''quota''))) (str ''key'') (str ''Chat'')
       (str ''Translator'') (str ''French'') [] (Some (str ''Good morning''))
       \<lparr>messages = [\<lparr>user = str ''hi'', assistant = str ''hello''\<rparr>], agent_runs = []\<rparr>))
     = [\<lparr>user = str ''hi'', assistant = str ''hello''\<rparr>]
   \<and> outcome (handle_input (\<lambda>k m p. Inl (GatewayError (str ''quota''))) (str ''key'') (str ''Chat'')
       (str ''Translator'') (str ''French'') [] (Some (str ''Good morning''))
       \<lparr>messages = [\<lparr>user = str ''hi'', assistant = str ''hello''\<rparr>], agent_runs = []\<rparr>)
     = Raised (GatewayError (str ''quota''))"
proof -
  let ?genai = "\<lambda>k m p. Inl (GatewayError (str ''quota'')) :: error + response"
  let ?st = "\<lparr>messages = [\<lparr>user = str ''hi'', assistant = str ''hello''\<rparr>], agent_runs = []\<rparr>"
  let ?R = "handle_input ?genai (str ''key'') (str ''Chat'') (str ''Translator'') (str ''French'') []
              (Some (str ''Good morning'')) ?st"
  let ?p = "Prompt (translate_prompt (str ''Good morning'') (str ''French''))"
  have 1: "str ''Good morning'' \<noteq> []" and 2: "str ''key'' \<noteq> []"
    by (simp_all add: str_def)
  have 4: "?p \<in> set (calls ?R)"
    by (simp add: handle_input_chat [OF 1 2] handle_chat_def chat_reply_roles tool_translate_def
          generate_text_def init_gemini_def)
  have 5: "fst (generate_text (init_gemini ?genai (str ''key'') default_model_name) ?p)
             = Inl (GatewayError (str ''quota''))"
    by (simp add: generate_text_def init_gemini_def)
  show ?thesis
    using gateway_failure_appends_no_turn [OF 1 2 refl 4 5] by simp
qed

text \<open>
  Claim C2. For every submitted user input, whatever the mode and role, an empty API key
  makes the run show the warning and stop: nothing is sent to the model and the session
  state is unchanged.
\<close>

theorem missing_api_key_stops:
  assumes "user_input \<noteq> []"
  shows "handle_input genai [] main_mode role language doc (Some user_input) st =
           \<lparr>session = st, shown = [Warning missing_key_warning], calls = [], outcome = Stopped\<rparr>"
  using assms by (simp add: handle_input_def)

theorem missing_api_key_stops_witness:
  "handle_input (\<lambda>k m p. Inl (GatewayError [])) [] (str ''Chat'') (str ''General Assistant'')
     (str ''English'') [] (Some (str ''hello'')) \<lparr>messages = [], agent_runs = []\<rparr>
   = \<lparr>session = \<lparr>messages = [], agent_runs = []\<rparr>, shown = [Warning missing_key_warning],
      calls = [], outcome = Stopped\<rparr>"
proof -
  have "str ''hello'' \<noteq> []" by (simp add: str_def)
  then show ?thesis by (rule missing_api_key_stops)
qed

text \<open>
  Claim C3. In Chat mode each of the six role names runs its own tool: General Assistant
  \<open>tool_general_chat\<close>, Coding Help \<open>tool_coding_help\<close>, Resume Review
  \<open>tool_resume_review\<close>, Emotional Support \<open>tool_emotional_support\<close>, Document QA
  \<open>tool_document_qa\<close>, Translator \<open>tool_translate\<close>; any other role name runs
  \<open>tool_general_chat\<close> instead of failing. What the run sends to the model and the reply it
  records are those of that tool, and at most one payload is sent.
\<close>

theorem chat_role_routing:
  assumes "user_input \<noteq> []" and "api_key \<noteq> []"
  shows
    "let model = init_gemini genai api_key default_model_name;
         R = handle_input genai api_key (str ''Chat'') role language doc (Some user_input) st;
         invoked = (\<lambda>tool.
           calls R = snd tool
           \<and> (case fst tool of
                 Inl e \<Rightarrow> outcome R = Raised e
               | Inr a \<Rightarrow> outcome R = Finished
                   \<and> messages (session R) = messages st @ [\<lparr>user = user_input, assistant = a\<rparr>]))
     in (role = str ''General Assistant'' \<longrightarrow>
           invoked (tool_general_chat model user_input language role (messages st)))
      \<and> (role = str ''Coding Help'' \<longrightarrow>
           invoked (tool_coding_help model user_input language))
      \<and> (role = str ''Resume Review'' \<longrightarrow>
           invoked (tool_resume_review model (if doc \<noteq> [] then doc else user_input) language))
      \<and> (role = str ''Emotional Support'' \<longrightarrow>
           invoked (tool_emotional_support model user_input language))
      \<and> (role = str ''Document QA'' \<longrightarrow>
           invoked (tool_document_qa model user_input doc language))
      \<and> (role = str ''Translator'' \<longrightarrow>
           invoked (tool_translate model user_input language))
      \<and> (role \<notin> {str ''General Assistant'', str ''Coding Help'', str ''Resume Review'',
                    str ''Emotional Support'', str ''Document QA'', str ''Translator''} \<longrightarrow>
           invoked (tool_general_chat model user_input language role (messages st)))
      \<and> length (calls R) \<le> 1"
proof -
  let ?model = "init_gemini genai api_key default_model_name"
  let ?R = "handle_input genai api_key (str ''Chat'') role language doc (Some user_input) st"
  let ?reply = "chat_reply ?model role user_input language doc (messages st)"
  let ?invoked = "\<lambda>tool.
           calls ?R = snd tool
           \<and> (case fst tool of
                 Inl e \<Rightarrow> outcome ?R = Raised e
               | Inr a \<Rightarrow> outcome ?R = Finished
                   \<and> messages (session ?R) = messages st @ [\<lparr>user = user_input, assistant = a\<rparr>])"
  have inv: "?invoked ?reply"
    using chat_run_reply [OF assms] by simp
  have len: "length (calls ?R) \<le> 1"
    using inv chat_reply_shape [of ?model role user_input language doc "messages st"]
      generate_text_sent [of ?model]
    by auto
  have ga: "role = str ''General Assistant'' \<Longrightarrow>
      ?reply = tool_general_chat ?model user_input language role (messages st)"
    by (simp add: chat_reply_roles)
  have ch: "role = str ''Coding Help'' \<Longrightarrow> ?reply = tool_coding_help ?model user_input language"
    by (simp add: chat_reply_roles)
  have rr: "role = str ''Resume Review'' \<Longrightarrow>
      ?reply = tool_resume_review ?model (if doc \<noteq> [] then doc else user_input) language"
    by (simp add: chat_reply_roles)
  have es: "role = str ''Emotional Support'' \<Longrightarrow>
      ?reply = tool_emotional_support ?model user_input language"
    by (simp add: chat_reply_roles)
  have dq: "role = str ''Document QA'' \<Longrightarrow>
      ?reply = tool_document_qa ?model user_input doc language"
    by (simp add: chat_reply_roles)
  have tr: "role = str ''Translator'' \<Longrightarrow> ?reply = tool_translate ?model user_input language"
    by (simp add: chat_reply_roles)
  have ot: "role \<notin> {str ''General Assistant'', str ''Coding Help'', str ''Resume Review'',
                    str ''Emotional Support'', str ''Document QA'', str ''Translator''} \<Longrightarrow>
      ?reply = tool_general_chat ?model user_input language role (messages st)"
    by (rule chat_reply_other) simp_all
  show ?thesis
    unfolding Let_def
    using inv len ga ch rr es dq tr ot by metis
qed

theorem chat_role_routing_witness:
  "calls (handle_input (\<lambda>k m p. Inr (Response (Inr (str '' Bonjour '')))) (str ''key'') (str ''Chat'')
            (str ''Poet'') (str ''English'') [] (Some (str ''hello''))
            \<lparr>messages = [], agent_runs = []\<rparr>)
     = [Contents (general_chat_contents (str ''hello'') (str ''English'') (str ''Poet'') [])]
   \<and> calls (handle_input (\<lambda>k m p. Inr (Response (Inr (str '' Bonjour '')))) (str ''key'') (str ''Chat'')
            (str ''Translator'') (str ''French'') [] (Some (str ''Good morning''))
            \<lparr>messages = [], agent_runs = []\<rparr>)
     = [Prompt (translate_prompt (str ''Good morning'') (str ''French''))]
   \<and> messages (session (handle_input (\<lambda>k m p. Inr (Response (Inr (str '' Bonjour '')))) (str ''key'')
            (str ''Chat'') (str ''Translator'') (str ''French'') [] (Some (str ''Good morning''))
            \<lparr>messages = [], agent_runs = []\<rparr>))
     = [\<lparr>user = str ''Good morning'', assistant = str ''Bonjour''\<rparr>]"
proof -
  let ?genai = "\<lambda>k m p. Inr (Response (Inr (str '' Bonjour ''))) :: error + response"
  let ?st = "\<lparr>messages = [], agent_runs = []\<rparr>"
  have 1: "str ''hello'' \<noteq> []" and 2: "str ''key'' \<noteq> []" and 3: "str ''Good morning'' \<noteq> []"
    by (simp_all add: str_def)
  have poet: "str ''Poet'' \<notin> {str ''General Assistant'', str ''Coding Help'', str ''Resume Review'',
                    str ''Emotional Support'', str ''Document QA'', str ''Translator''}"
    by (simp add: str_def)
  have bonjour: "strip (str '' Bonjour '') = str ''Bonjour''"
    by (simp add: strip_def str_def isspace_def)
  show ?thesis
    using chat_role_routing [OF 1 2, of ?genai "str ''Poet''" "str ''English''" "[]" ?st]
      chat_role_routing [OF 3 2, of ?genai "str ''Translator''" "str ''French''" "[]" ?st]
      poet
    by (simp add: Let_def tool_general_chat_def tool_translate_def generate_text_def
          init_gemini_def bonjour)
qed

text \<open>
  Claim C10. In Chat mode with role Resume Review, when the extracted document context is
  empty the typed input itself is the resume text given to \<open>tool_resume_review\<close>; the
  document text is given only when it is not empty.
\<close>

theorem resume_text_from_input_when_no_document:
  assumes "user_input \<noteq> []" and "api_key \<noteq> []"
  shows
    "let model = init_gemini genai api_key default_model_name;
         R = handle_input genai api_key (str ''Chat'') (str ''Resume Review'') language doc
               (Some user_input) st;
         reviewed = (\<lambda>resume_text.
           calls R = snd (tool_resume_review model resume_text language)
           \<and> (case fst (tool_resume_review model resume_text language) of
                 Inl e \<Rightarrow> outcome R = Raised e
               | Inr a \<Rightarrow> outcome R = Finished
                   \<and> messages (session R) = messages st @ [\<lparr>user = user_input, assistant = a\<rparr>]))
     in (doc = [] \<longrightarrow> reviewed user_input) \<and> (doc \<noteq> [] \<longrightarrow> reviewed doc)"
proof (cases "doc = []")
  case True
  show ?thesis
    using chat_run_reply [OF assms, of genai "str ''Resume Review''" language "[]" st]
    unfolding True Let_def by (simp add: chat_reply_roles)
next
  case False
  show ?thesis
    using chat_run_reply [OF assms, of genai "str ''Resume Review''" language doc st] False
    unfolding Let_def by (simp add: chat_reply_roles)
qed

theorem resume_text_from_input_when_no_document_witness:
  "calls (handle_input (\<lambda>k m p. Inl (GatewayError [])) (str ''key'') (str ''Chat'')
            (str ''Resume Review'') (str ''English'') [] (Some (str ''my resume''))
            \<lparr>messages = [], agent_runs = []\<rparr>)
     = [Prompt (resume_review_prompt (str ''my resume'') (str ''English''))]
   \<and> calls (handle_input (\<lambda>k m p. Inl (GatewayError [])) (str ''key'') (str ''Chat'')
            (str ''Resume Review'') (str ''English'') (str ''uploaded cv'') (Some (str ''my resume''))
            \<lparr>messages = [], agent_runs = []\<rparr>)
     = [Prompt (resume_review_prompt (str ''uploaded cv'') (str ''English''))]"
proof -
  let ?genai = "\<lambda>k m p. Inl (GatewayError []) :: error + response"
  let ?st = "\<lparr>messages = [], agent_runs = []\<rparr>"
  have 1: "str ''my resume'' \<noteq> []" and 2: "str ''key'' \<noteq> []" and 3: "str ''uploaded cv'' \<noteq> []"
    by (simp_all add: str_def)
  have s1: "strip (str ''my resume'') \<noteq> []" and s2: "strip (str ''uploaded cv'') \<noteq> []"
    by (simp_all add: strip_def str_def isspace_def)
  show ?thesis
    using resume_text_from_input_when_no_document [OF 1 2, of ?genai "str ''English''" "[]" ?st]
      resume_text_from_input_when_no_document [OF 1 2, of ?genai "str ''English''" "str ''uploaded cv''" ?st]
      3 s1 s2
    by (simp add: Let_def tool_resume_review_def generate_text_sent)
qed


section \<open>Text extraction from uploads\<close>


lemma get_uploaded_text_single:
  "get_uploaded_text lower PyPDF2 [f] =
     (if endswith (lower (name f)) (str ''.txt'') then read_txt_file f
      else if endswith (lower (name f)) (str ''.pdf'') then read_pdf_file PyPDF2 f
      else Inr (str ''Unsupported file type: '' @ name f))"
  by (simp add: get_uploaded_text_def split: sum.splits)











text \<open>
  Claim C8, as amended. For every byte content of a file whose name ends
  (case-insensitively) in \<open>.txt\<close>, text extraction decodes it as UTF-8 and drops the
  undecodable bytes rather than failing: extraction always returns, and what it returns is
  the one text that reading the bytes left to right gives, taking a scalar value wherever
  its encoding begins and dropping a byte wherever none does. That text is the strict
  decoding of a subsequence of the bytes, and content that is valid UTF-8 is decoded
  unchanged.
\<close>

theorem txt_decoding_drops_undecodable:
  assumes "endswith (lower (name f)) (str ''.txt'')"
  shows "\<exists>t. get_uploaded_text lower PyPDF2 [f] = Inr t
           \<and> (\<forall>t'. dropping_undecodable (data f) t' \<longleftrightarrow> t' = t)
           \<and> (\<exists>kept. subseq kept (data f) \<and> decode_utf8 Strict kept = Inr t)
           \<and> (\<forall>s. decode_utf8 Strict (data f) = Inr s \<longrightarrow> t = s)"
proof -
  have g: "get_uploaded_text lower PyPDF2 [f] = decode_utf8 Ignore (data f)"
    using assms by (simp add: get_uploaded_text_single read_txt_file_def)
  obtain t where t: "decode_utf8 Ignore (data f) = Inr t"
    using decode_ignore_total by blast
  obtain kept where k: "subseq kept (data f)" "decode_utf8 Strict kept = decode_utf8 Ignore (data f)"
    using decode_ignore_kept by blast
  have u: "\<forall>t'. dropping_undecodable (data f) t' \<longleftrightarrow> t' = t"
    using t by (auto simp: dropping_undecodable_iff)
  have "\<forall>s. decode_utf8 Strict (data f) = Inr s \<longrightarrow> t = s"
    using decode_strict_ignore t by fastforce
  then show ?thesis using g t k u by auto
qed

theorem txt_decoding_drops_undecodable_witness:
  "endswith (ascii_lower (name \<lparr>name = str ''notes.TXT'',
       data = [0x61, 0xFF, 0xE2, 0x82, 0xAC, 0xF0, 0x9F, 0x98, 0x80, 0xED, 0xA0, 0x80,
               0xC3, 0xA9, 0xE2, 0x82]\<rparr>)) (str ''.txt'')
   \<and> get_uploaded_text ascii_lower None [\<lparr>name = str ''notes.TXT'',
       data = [0x61, 0xFF, 0xE2, 0x82, 0xAC, 0xF0, 0x9F, 0x98, 0x80, 0xED, 0xA0, 0x80,
               0xC3, 0xA9, 0xE2, 0x82]\<rparr>]
       = Inr [0x61, 0x20AC, 0x1F600, 0xE9]
   \<and> dropping_undecodable
         [0x61, 0xFF, 0xE2, 0x82, 0xAC, 0xF0, 0x9F, 0x98, 0x80, 0xED, 0xA0, 0x80, 0xC3, 0xA9, 0xE2, 0x82]
         [0x61, 0x20AC, 0x1F600, 0xE9]"
proof -
  let ?f = "\<lparr>name = str ''notes.TXT'',
       data = [0x61, 0xFF, 0xE2, 0x82, 0xAC, 0xF0, 0x9F, 0x98, 0x80, 0xED, 0xA0, 0x80,
               0xC3, 0xA9, 0xE2, 0x82 :: byte]\<rparr>"
  have h: "endswith (ascii_lower (name ?f)) (str ''.txt'')"
    by (simp add: endswith_def ascii_lower_def str_def)
  have v: "get_uploaded_text ascii_lower None [?f] = Inr [0x61, 0x20AC, 0x1F600, 0xE9]"
    by (simp add: get_uploaded_text_def endswith_def ascii_lower_def str_def read_txt_file_def
          utf8_next_def is_continuation_def)
  show ?thesis
    using txt_decoding_drops_undecodable [of ascii_lower ?f None] h v by auto
qed

text \<open>
  Claim C8 as first stated has the undecodable bytes replaced. They are not: the byte
  \<open>0xFF\<close> between \<open>a\<close> and \<open>b\<close> leaves no trace in the extracted text, where decoding
  with replacement puts U+FFFD.
\<close>

theorem txt_decoding_not_replacing:
  "get_uploaded_text ascii_lower None [\<lparr>name = str ''a.txt'', data = [0x61, 0xFF, 0x62]\<rparr>]
     = Inr [0x61, 0x62]
   \<and> decode_utf8 Replace [0x61, 0xFF, 0x62] = Inr [0x61, 0xFFFD, 0x62]"
  by (simp add: get_uploaded_text_def endswith_def ascii_lower_def str_def read_txt_file_def
        utf8_next_def)

end
